theory Spec2Isabelle
  imports Main "HOL-Library.Word"
begin

section \<open>Value types\<close>

text \<open>
  The buffer manager of SwatDB (\<^verbatim>\<open>bufmgr.cpp\<close>, \<^verbatim>\<open>bm_frame.cpp\<close>,
  \<^verbatim>\<open>bm_buffermap.cpp\<close>, \<^verbatim>\<open>bm_replacement.cpp\<close>, \<^verbatim>\<open>bm_policies.cpp\<close>) as a shallow
  embedding. \<^verbatim>\<open>swatdb_types.h\<close>, \<^verbatim>\<open>page.h\<close> and the disk manager are not part of the
  sources at hand: \<^verbatim>\<open>BUF_SIZE\<close> is a parameter of every function that uses it, the disk
  manager is a parameter too (a record of its methods over an arbitrary disk state), and
  a \<^verbatim>\<open>Page*\<close> into \<^verbatim>\<open>buf_pool\<close> is the index of the slot it points to.
\<close>

type_synonym FileId = "32 word"
type_synonym PageNum = "32 word"
type_synonym FrameId = nat
type_synonym Page = "8 word list"

record PageId =
  file_id :: FileId
  page_num :: PageNum

text \<open>
  Modelled from the spec: the sentinel \<^verbatim>\<open>INVALID_PAGE_ID\<close> of \<^verbatim>\<open>swatdb_types.h\<close>, which is
  not among the sources; the largest file id and page number stand for it.
\<close>

definition INVALID_PAGE_ID :: PageId where
  "INVALID_PAGE_ID = \<lparr>file_id = - 1, page_num = - 1\<rparr>"

datatype RepType = ClockT | RandomT | MruT | LruT | INVALID_REP_TYPE

datatype error =
    PageNotFoundBufMgr PageId
  | PageAlreadyLoadedBufMgr PageId
  | PageNotPinnedBufMgr PageId
  | PagePinnedBufMgr PageId
  | InvalidPageIdBufMgr PageId
  | InsufficientSpaceBufMgr
  | InvalidPolicyBufMgr
  | InvalidFileIdDiskMgr
  | InvalidPageNumDiskMgr
  | InsufficientSpaceDiskMgr
  | DiskError

section \<open>Frame (bm\_frame.cpp)\<close>

text \<open>\<^verbatim>\<open>pin_count\<close> is a C++ \<^verbatim>\<open>int\<close>: a 32-bit word, read signed where the code
  compares it with \<^verbatim>\<open>> 0\<close>.\<close>

record Frame =
  page_id :: PageId
  pin_count :: "32 word"
  valid :: bool
  dirty :: bool

definition resetFrame :: "Frame \<Rightarrow> Frame" where
  "resetFrame f = f\<lparr>page_id := INVALID_PAGE_ID, pin_count := 0, valid := False, dirty := False\<rparr>"

definition loadFrame :: "PageId \<Rightarrow> Frame \<Rightarrow> Frame" where
  "loadFrame new_pid f = (resetFrame f)\<lparr>page_id := new_pid, pin_count := 1, valid := True\<rparr>"

text \<open>The constructor \<^verbatim>\<open>Frame::Frame()\<close> calls \<^verbatim>\<open>resetFrame\<close> on a fresh object.\<close>

definition Frame_new :: Frame where
  "Frame_new = \<lparr>page_id = INVALID_PAGE_ID, pin_count = 0, valid = False, dirty = False\<rparr>"

definition pinned :: "Frame \<Rightarrow> bool" where
  "pinned f \<longleftrightarrow> 0 < sint (pin_count f)"

section \<open>BufferMap (bm\_buffermap.cpp)\<close>

type_synonym BufferMap = "PageId \<rightharpoonup> FrameId"

definition BufferMap_get :: "BufferMap \<Rightarrow> PageId \<Rightarrow> error + FrameId" where
  "BufferMap_get m p = (case m p of None \<Rightarrow> Inl (PageNotFoundBufMgr p) | Some f \<Rightarrow> Inr f)"

definition BufferMap_contains :: "BufferMap \<Rightarrow> PageId \<Rightarrow> bool" where
  "BufferMap_contains m p = (case m p of None \<Rightarrow> False | Some f \<Rightarrow> True)"

definition BufferMap_insert :: "BufferMap \<Rightarrow> PageId \<Rightarrow> FrameId \<Rightarrow> error + BufferMap" where
  "BufferMap_insert m p f =
     (if BufferMap_contains m p then Inl (PageAlreadyLoadedBufMgr p) else Inr (m(p \<mapsto> f)))"

definition BufferMap_remove :: "BufferMap \<Rightarrow> PageId \<Rightarrow> error + BufferMap" where
  "BufferMap_remove m p =
     (if \<not> BufferMap_contains m p then Inl (PageNotFoundBufMgr p) else Inr (m(p := None)))"

section \<open>Replacement policies (bm\_replacement.cpp, bm\_policies.cpp)\<close>

text \<open>
  The base class holds the free list (a \<^verbatim>\<open>std::queue\<close>: the front is the head of the
  list, \<^verbatim>\<open>push\<close> appends) and the counters. The policy reads the manager's frame table
  through a pointer; that table is an argument of every function that reads it.
  \<^verbatim>\<open>avg_frames_checked\<close> is a \<^verbatim>\<open>double\<close> that no function reads back into a decision;
  it has no field here.
\<close>

record ReplacementPolicy =
  free :: "FrameId list"
  rep_calls :: "64 word"
  new_page_calls :: "64 word"

record Clock = ReplacementPolicy +
  clock_hand :: nat
  ref_table :: "bool list"

text \<open>\<^verbatim>\<open>std::rand()\<close> is process-global state: \<open>rand_src\<close> is the sequence of values it
  will return and \<open>rand_calls\<close> the number of calls made so far.\<close>

record Random = ReplacementPolicy +
  times_chosen :: "32 word list"
  rand_src :: "nat \<Rightarrow> nat"
  rand_calls :: nat

definition createFree :: "nat \<Rightarrow> Frame list \<Rightarrow> FrameId list" where
  "createFree BUF_SIZE frame_table = filter (\<lambda>i. \<not> valid (frame_table ! i)) [0..<BUF_SIZE]"

text \<open>The constructor of \<^verbatim>\<open>Clock\<close> leaves \<^verbatim>\<open>new_page_calls\<close> uninitialised: its first value
  is the argument \<open>npc\<close>.\<close>

definition Clock_new :: "nat \<Rightarrow> Frame list \<Rightarrow> 64 word \<Rightarrow> Clock" where
  "Clock_new BUF_SIZE frame_table npc =
     \<lparr>free = createFree BUF_SIZE frame_table, rep_calls = 0, new_page_calls = npc,
      clock_hand = 0, ref_table = replicate BUF_SIZE False\<rparr>"

definition advanceClock :: "nat \<Rightarrow> Clock \<Rightarrow> Clock" where
  "advanceClock BUF_SIZE c = c\<lparr>clock_hand := (clock_hand c + 1) mod BUF_SIZE\<rparr>"

text \<open>
  The \<^verbatim>\<open>while(true)\<close> loop of \<^verbatim>\<open>Clock::replace\<close>. It need not end, so \<open>None\<close> is the loop
  that runs forever. A pinned frame ends the iteration with \<^verbatim>\<open>continue\<close>, which skips the
  test of \<^verbatim>\<open>frames_checked\<close> at the bottom of the body.
\<close>

partial_function (option) Clock_scan ::
  "nat \<Rightarrow> Frame list \<Rightarrow> 32 word \<Rightarrow> Clock \<Rightarrow> ((error + FrameId) \<times> Clock) option" where
  "Clock_scan BUF_SIZE frame_table frames_checked c =
     (if pinned (frame_table ! clock_hand c) then
        Clock_scan BUF_SIZE frame_table (frames_checked + 1) (advanceClock BUF_SIZE c)
      else if valid (frame_table ! clock_hand c) then
        (if ref_table c ! clock_hand c then
           (if BUF_SIZE \<le> unat frames_checked then
              Some (Inl InsufficientSpaceBufMgr,
                    advanceClock BUF_SIZE (c\<lparr>ref_table := (ref_table c)[clock_hand c := False]\<rparr>))
            else Clock_scan BUF_SIZE frame_table frames_checked
                   (advanceClock BUF_SIZE (c\<lparr>ref_table := (ref_table c)[clock_hand c := False]\<rparr>)))
         else Some (Inr (clock_hand c), advanceClock BUF_SIZE (c\<lparr>rep_calls := rep_calls c + 1\<rparr>)))
      else if BUF_SIZE \<le> unat frames_checked then Some (Inl InsufficientSpaceBufMgr, c)
      else Clock_scan BUF_SIZE frame_table frames_checked c)"

declare Clock_scan.simps [code]

definition Clock_replace ::
  "nat \<Rightarrow> Frame list \<Rightarrow> Clock \<Rightarrow> ((error + FrameId) \<times> Clock) option" where
  "Clock_replace BUF_SIZE frame_table c =
     (if free c \<noteq> [] then Some (Inr (hd (free c)), c\<lparr>free := tl (free c)\<rparr>)
      else Clock_scan BUF_SIZE frame_table 0 c)"

definition Clock_pin :: "FrameId \<Rightarrow> Clock \<Rightarrow> Clock" where
  "Clock_pin frame_id c = c"

definition Clock_unpin :: "FrameId \<Rightarrow> Clock \<Rightarrow> Clock" where
  "Clock_unpin frame_id c = c\<lparr>ref_table := (ref_table c)[frame_id := True]\<rparr>"

definition Clock_freeFrame :: "FrameId \<Rightarrow> Clock \<Rightarrow> Clock" where
  "Clock_freeFrame frame_id c =
     c\<lparr>free := free c @ [frame_id], ref_table := (ref_table c)[frame_id := False]\<rparr>"

definition Random_new :: "nat \<Rightarrow> Frame list \<Rightarrow> (nat \<Rightarrow> nat) \<Rightarrow> Random" where
  "Random_new BUF_SIZE frame_table rnd =
     \<lparr>free = createFree BUF_SIZE frame_table, rep_calls = 0, new_page_calls = 0,
      times_chosen = replicate BUF_SIZE 0, rand_src = rnd, rand_calls = 0\<rparr>"

text \<open>The loop of random draws of \<^verbatim>\<open>Random::replace\<close>: the state is the frame drawn last,
  the counter \<^verbatim>\<open>c\<close> and the number of calls of \<^verbatim>\<open>std::rand()\<close>.\<close>

function Random_draw ::
  "nat \<Rightarrow> Frame list \<Rightarrow> (nat \<Rightarrow> nat) \<Rightarrow> nat \<Rightarrow> nat \<Rightarrow> nat \<Rightarrow> nat \<times> nat \<times> nat" where
  "Random_draw BUF_SIZE frame_table rnd rand_num c calls =
     (if pin_count (frame_table ! rand_num) \<noteq> 0 \<and> c < BUF_SIZE div 2 then
        Random_draw BUF_SIZE frame_table rnd (rnd calls mod BUF_SIZE) (c + 1) (calls + 1)
      else (rand_num, c, calls))"
  by pat_completeness auto
termination
  by (relation "measure (\<lambda>(BUF_SIZE, frame_table, rnd, rand_num, c, calls). BUF_SIZE div 2 - c)")
     auto

text \<open>The update of the statistics on success: \<^verbatim>\<open>rep_calls\<close> starts over when the
  increment would wrap, and the chosen frame's counter goes up.\<close>

definition Random_chosen :: "FrameId \<Rightarrow> Random \<Rightarrow> Random" where
  "Random_chosen i r =
     r\<lparr>rep_calls := (if rep_calls r + 1 = 0 then 0 else rep_calls r) + 1,
       times_chosen := (times_chosen r)[i := times_chosen r ! i + 1]\<rparr>"

definition Random_replace :: "nat \<Rightarrow> Frame list \<Rightarrow> Random \<Rightarrow> (error + FrameId) \<times> Random" where
  "Random_replace BUF_SIZE frame_table r =
     (if free r \<noteq> [] then (Inr (hd (free r)), r\<lparr>free := tl (free r)\<rparr>)
      else
        (case Random_draw BUF_SIZE frame_table (rand_src r)
                (rand_src r (rand_calls r) mod BUF_SIZE) 0 (rand_calls r + 1) of
           (rand_num, c, calls) \<Rightarrow>
             if c = BUF_SIZE then
               (case find (\<lambda>i. pin_count (frame_table ! i) = 0) [0..<BUF_SIZE] of
                  Some i \<Rightarrow> (Inr i, Random_chosen i (r\<lparr>rand_calls := calls\<rparr>))
                | None \<Rightarrow> (Inl InsufficientSpaceBufMgr, r\<lparr>rand_calls := calls\<rparr>))
             else (Inr rand_num, Random_chosen rand_num (r\<lparr>rand_calls := calls\<rparr>))))"

definition Random_pin :: "FrameId \<Rightarrow> Random \<Rightarrow> Random" where
  "Random_pin frame_id r = r"

definition Random_unpin :: "FrameId \<Rightarrow> Random \<Rightarrow> Random" where
  "Random_unpin frame_id r = r"

text \<open>\<^verbatim>\<open>Random\<close> does not override \<^verbatim>\<open>freeFrame\<close>: it runs the base class's.\<close>

definition Random_freeFrame :: "FrameId \<Rightarrow> Random \<Rightarrow> Random" where
  "Random_freeFrame frame_id r = r\<lparr>free := free r @ [frame_id]\<rparr>"

text \<open>Dynamic dispatch through \<^verbatim>\<open>ReplacementPolicy*\<close>.\<close>

datatype Policy = ClockPol Clock | RandomPol Random

definition policy_replace ::
  "nat \<Rightarrow> Frame list \<Rightarrow> Policy \<Rightarrow> ((error + FrameId) \<times> Policy) option" where
  "policy_replace BUF_SIZE frame_table pol =
     (case pol of
        ClockPol c \<Rightarrow>
          (case Clock_replace BUF_SIZE frame_table c of
             None \<Rightarrow> None
           | Some (r, c') \<Rightarrow> Some (r, ClockPol c'))
      | RandomPol r \<Rightarrow>
          (case Random_replace BUF_SIZE frame_table r of (res, r') \<Rightarrow> Some (res, RandomPol r')))"

definition policy_pin :: "FrameId \<Rightarrow> Policy \<Rightarrow> Policy" where
  "policy_pin frame_id pol =
     (case pol of ClockPol c \<Rightarrow> ClockPol (Clock_pin frame_id c)
      | RandomPol r \<Rightarrow> RandomPol (Random_pin frame_id r))"

definition policy_unpin :: "FrameId \<Rightarrow> Policy \<Rightarrow> Policy" where
  "policy_unpin frame_id pol =
     (case pol of ClockPol c \<Rightarrow> ClockPol (Clock_unpin frame_id c)
      | RandomPol r \<Rightarrow> RandomPol (Random_unpin frame_id r))"

definition policy_freeFrame :: "FrameId \<Rightarrow> Policy \<Rightarrow> Policy" where
  "policy_freeFrame frame_id pol =
     (case pol of ClockPol c \<Rightarrow> ClockPol (Clock_freeFrame frame_id c)
      | RandomPol r \<Rightarrow> RandomPol (Random_freeFrame frame_id r))"

definition incrementGetAllocCount :: "Policy \<Rightarrow> Policy" where
  "incrementGetAllocCount pol =
     (case pol of ClockPol c \<Rightarrow> ClockPol (c\<lparr>new_page_calls := new_page_calls c + 1\<rparr>)
      | RandomPol r \<Rightarrow> RandomPol (r\<lparr>new_page_calls := new_page_calls r + 1\<rparr>))"

record ReplacementStats =
  rs_rep_type :: RepType
  rs_rep_calls :: "64 word"
  rs_new_page_calls :: "64 word"
  rs_ref_bit :: "32 word"
  rs_clock_hand :: nat

definition getRepStats :: "Policy \<Rightarrow> ReplacementStats" where
  "getRepStats pol =
     (case pol of
        ClockPol c \<Rightarrow>
          \<lparr>rs_rep_type = ClockT, rs_rep_calls = rep_calls c, rs_new_page_calls = new_page_calls c,
           rs_ref_bit = of_nat (length (filter (\<lambda>b. b) (ref_table c))),
           rs_clock_hand = clock_hand c\<rparr>
      | RandomPol r \<Rightarrow>
          \<lparr>rs_rep_type = RandomT, rs_rep_calls = rep_calls r, rs_new_page_calls = new_page_calls r,
           rs_ref_bit = 0, rs_clock_hand = 0\<rparr>)"

section \<open>The disk manager\<close>

text \<open>
  \<^verbatim>\<open>DiskManager\<close> is outside the sources at hand. Its methods are a parameter: each takes
  the disk's state and returns the value or the exception together with the state after
  the call.
\<close>

record 'd DiskManager =
  dm_allocatePage :: "FileId \<Rightarrow> 'd \<Rightarrow> (error + PageId) \<times> 'd"
  dm_deallocatePage :: "PageId \<Rightarrow> 'd \<Rightarrow> (error + unit) \<times> 'd"
  dm_readPage :: "PageId \<Rightarrow> 'd \<Rightarrow> (error + Page) \<times> 'd"
  dm_writePage :: "PageId \<Rightarrow> Page \<Rightarrow> 'd \<Rightarrow> (error + unit) \<times> 'd"
  dm_createFile :: "FileId \<Rightarrow> 'd \<Rightarrow> (error + unit) \<times> 'd"
  dm_removeFile :: "FileId \<Rightarrow> 'd \<Rightarrow> (error + unit) \<times> 'd"

section \<open>BufferManager (bufmgr.cpp)\<close>

text \<open>
  Every method returns the value or the exception it raises, with the state the manager
  is left in. \<open>disk\<close> is the state of the object behind \<^verbatim>\<open>disk_mgr\<close>.
\<close>

record 'd BufferManager =
  buf_map :: BufferMap
  frame_table :: "Frame list"
  buf_pool :: "Page list"
  disk :: 'd
  replacement_pol :: Policy

text \<open>The constructor. \<open>pool\<close> is the uninitialised content of \<^verbatim>\<open>buf_pool\<close>, \<open>npc\<close> and
  \<open>rnd\<close> are what the policies take from their environment.\<close>

definition BufferManager_new ::
  "nat \<Rightarrow> 'd \<Rightarrow> RepType \<Rightarrow> Page list \<Rightarrow> 64 word \<Rightarrow> (nat \<Rightarrow> nat) \<Rightarrow> error + 'd BufferManager" where
  "BufferManager_new BUF_SIZE d rep_type pool npc rnd =
     (case rep_type of
        ClockT \<Rightarrow>
          Inr \<lparr>buf_map = Map.empty, frame_table = replicate BUF_SIZE Frame_new, buf_pool = pool,
               disk = d,
               replacement_pol = ClockPol (Clock_new BUF_SIZE (replicate BUF_SIZE Frame_new) npc)\<rparr>
      | RandomT \<Rightarrow>
          Inr \<lparr>buf_map = Map.empty, frame_table = replicate BUF_SIZE Frame_new, buf_pool = pool,
               disk = d,
               replacement_pol = RandomPol (Random_new BUF_SIZE (replicate BUF_SIZE Frame_new) rnd)\<rparr>
      | _ \<Rightarrow> Inl InvalidPolicyBufMgr)"

text \<open>\<^verbatim>\<open>getBufferState().unpinned\<close>: \<^verbatim>\<open>BUF_SIZE\<close> minus the number of frames with
  \<^verbatim>\<open>pin_count > 0\<close>.\<close>

definition getNumUnpinned :: "nat \<Rightarrow> 'd BufferManager \<Rightarrow> nat" where
  "getNumUnpinned BUF_SIZE st =
     BUF_SIZE - length (filter (\<lambda>i. pinned (frame_table st ! i)) [0..<BUF_SIZE])"

definition allocateFrame ::
  "nat \<Rightarrow> 'd BufferManager \<Rightarrow> ((error + FrameId) \<times> 'd BufferManager) option" where
  "allocateFrame BUF_SIZE st =
     (case policy_replace BUF_SIZE (frame_table st) (replacement_pol st) of
        None \<Rightarrow> None
      | Some (Inl e, pol) \<Rightarrow> Some (Inl e, st\<lparr>replacement_pol := pol\<rparr>)
      | Some (Inr frame_id, pol) \<Rightarrow>
          (let st1 = st\<lparr>replacement_pol := pol\<rparr>; tmp = frame_table st1 ! frame_id in
           case (if valid tmp then BufferMap_remove (buf_map st1) (page_id tmp)
                 else Inr (buf_map st1)) of
             Inl e \<Rightarrow> Some (Inl e, st1)
           | Inr m \<Rightarrow>
               Some (Inr frame_id,
                     st1\<lparr>buf_map := m,
                         frame_table := (frame_table st1)
                           [frame_id := tmp\<lparr>valid := False, dirty := False, pin_count := 0\<rparr>]\<rparr>)))"

definition allocatePage ::
  "'d DiskManager \<Rightarrow> nat \<Rightarrow> FileId \<Rightarrow> 'd BufferManager \<Rightarrow>
     ((error + FrameId \<times> PageId) \<times> 'd BufferManager) option" where
  "allocatePage dm BUF_SIZE fid st =
     (if getNumUnpinned BUF_SIZE st = 0 then Some (Inl InsufficientSpaceBufMgr, st)
      else
        (case dm_allocatePage dm fid (disk st) of
           (Inl e, d) \<Rightarrow> Some (Inl e, st\<lparr>disk := d\<rparr>)
         | (Inr pid, d) \<Rightarrow>
             (case allocateFrame BUF_SIZE (st\<lparr>disk := d\<rparr>) of
                None \<Rightarrow> None
              | Some (Inl e, st1) \<Rightarrow> Some (Inl e, st1)
              | Some (Inr frame_id, st1) \<Rightarrow>
                  (let st2 = st1\<lparr>frame_table := (frame_table st1)
                               [frame_id := (frame_table st1 ! frame_id)
                                  \<lparr>page_id := pid, valid := True, pin_count := 1, dirty := False\<rparr>]\<rparr>
                   in case BufferMap_insert (buf_map st2) pid frame_id of
                        Inl e \<Rightarrow> Some (Inl e, st2)
                      | Inr m \<Rightarrow>
                          Some (Inr (frame_id, pid),
                                st2\<lparr>buf_map := m,
                                    replacement_pol := policy_pin frame_id (replacement_pol st2)\<rparr>)))))"

definition deallocatePage ::
  "'d DiskManager \<Rightarrow> PageId \<Rightarrow> 'd BufferManager \<Rightarrow> (error + unit) \<times> 'd BufferManager" where
  "deallocatePage dm pid st =
     (case (if BufferMap_contains (buf_map st) pid then
              (case BufferMap_get (buf_map st) pid of
                 Inl e \<Rightarrow> Inl (e, st)
               | Inr frame_id \<Rightarrow>
                   if pinned (frame_table st ! frame_id) then Inl (PagePinnedBufMgr pid, st)
                   else
                     (let st1 = st\<lparr>frame_table := (frame_table st)
                                  [frame_id := (frame_table st ! frame_id)
                                     \<lparr>valid := False, dirty := False, pin_count := 0\<rparr>]\<rparr>
                      in case BufferMap_remove (buf_map st1) pid of
                           Inl e \<Rightarrow> Inl (e, st1)
                         | Inr m \<Rightarrow>
                             Inr (st1\<lparr>buf_map := m,
                                      replacement_pol :=
                                        policy_freeFrame frame_id (replacement_pol st1)\<rparr>)))
            else Inr st) of
        Inl (e, st') \<Rightarrow> (Inl e, st')
      | Inr st' \<Rightarrow>
          (case dm_deallocatePage dm pid (disk st') of (r, d) \<Rightarrow> (r, st'\<lparr>disk := d\<rparr>)))"

text \<open>The \<^verbatim>\<open>catch\<close> clauses around \<^verbatim>\<open>readPage\<close> in \<^verbatim>\<open>getPage\<close>: the two disk exceptions
  they name become \<^verbatim>\<open>InvalidPageIdBufMgr\<close>; any other propagates.\<close>

definition readPage_catch :: "PageId \<Rightarrow> error \<Rightarrow> error" where
  "readPage_catch pid e =
     (case e of
        InvalidFileIdDiskMgr \<Rightarrow> InvalidPageIdBufMgr pid
      | InvalidPageNumDiskMgr \<Rightarrow> InvalidPageIdBufMgr pid
      | _ \<Rightarrow> e)"

text \<open>\<^verbatim>\<open>getPage\<close>. A failure of \<^verbatim>\<open>readPage\<close> is taken to leave the slot of \<^verbatim>\<open>buf_pool\<close> as
  it was.\<close>

definition getPage ::
  "'d DiskManager \<Rightarrow> nat \<Rightarrow> PageId \<Rightarrow> 'd BufferManager \<Rightarrow>
     ((error + FrameId) \<times> 'd BufferManager) option" where
  "getPage dm BUF_SIZE pid st =
     (if BufferMap_contains (buf_map st) pid then
        (case BufferMap_get (buf_map st) pid of
           Inl e \<Rightarrow> Some (Inl e, st)
         | Inr tmp \<Rightarrow>
             Some (Inr tmp,
                   st\<lparr>frame_table := (frame_table st)
                        [tmp := (frame_table st ! tmp)
                           \<lparr>pin_count := pin_count (frame_table st ! tmp) + 1\<rparr>]\<rparr>))
      else if getNumUnpinned BUF_SIZE st = 0 then Some (Inl InsufficientSpaceBufMgr, st)
      else
        (case policy_replace BUF_SIZE (frame_table st) (replacement_pol st) of
           None \<Rightarrow> None
         | Some (Inl e, pol) \<Rightarrow> Some (Inl e, st\<lparr>replacement_pol := pol\<rparr>)
         | Some (Inr tmp, pol) \<Rightarrow>
             (let st1 = st\<lparr>replacement_pol := pol\<rparr>; frame = frame_table st1 ! tmp in
              case (if valid frame \<and> dirty frame then
                      (case dm_writePage dm (page_id frame) (buf_pool st1 ! tmp) (disk st1) of
                         (Inl e, d) \<Rightarrow> Inl (e, st1\<lparr>disk := d\<rparr>)
                       | (Inr u, d) \<Rightarrow>
                           Inr (st1\<lparr>disk := d,
                                    frame_table := (frame_table st1)
                                      [tmp := frame\<lparr>dirty := False\<rparr>]\<rparr>))
                    else Inr st1) of
                Inl (e, st2) \<Rightarrow> Some (Inl e, st2)
              | Inr st2 \<Rightarrow>
                  (case (if valid (frame_table st2 ! tmp) then
                           BufferMap_remove (buf_map st2) (page_id (frame_table st2 ! tmp))
                         else Inr (buf_map st2)) of
                     Inl e \<Rightarrow> Some (Inl e, st2)
                   | Inr m \<Rightarrow>
                       (let st3 = st2\<lparr>buf_map := m\<rparr> in
                        case dm_readPage dm pid (disk st3) of
                          (Inl e, d) \<Rightarrow> Some (Inl (readPage_catch pid e), st3\<lparr>disk := d\<rparr>)
                        | (Inr pg, d) \<Rightarrow>
                            (let st4 = st3\<lparr>disk := d, buf_pool := (buf_pool st3)[tmp := pg],
                                          frame_table := (frame_table st3)
                                            [tmp := (frame_table st3 ! tmp)
                                               \<lparr>page_id := pid, valid := True, pin_count := 1,
                                                dirty := False\<rparr>]\<rparr>
                             in case BufferMap_insert (buf_map st4) pid tmp of
                                  Inl e \<Rightarrow> Some (Inl e, st4)
                                | Inr m' \<Rightarrow>
                                    Some (Inr tmp,
                                          st4\<lparr>buf_map := m',
                                              replacement_pol :=
                                                policy_pin tmp (replacement_pol st4)\<rparr>)))))))"

definition releasePage ::
  "PageId \<Rightarrow> bool \<Rightarrow> 'd BufferManager \<Rightarrow> (error + unit) \<times> 'd BufferManager" where
  "releasePage pid dirty_flag st =
     (if \<not> BufferMap_contains (buf_map st) pid then (Inl (PageNotFoundBufMgr pid), st)
      else
        (case BufferMap_get (buf_map st) pid of
           Inl e \<Rightarrow> (Inl e, st)
         | Inr tmp \<Rightarrow>
             if pin_count (frame_table st ! tmp) = 0 then (Inl (PageNotPinnedBufMgr pid), st)
             else
               (let frame = frame_table st ! tmp;
                    frame1 = (if dirty_flag then frame\<lparr>dirty := True\<rparr> else frame);
                    frame2 = frame1\<lparr>pin_count := pin_count frame1 - 1\<rparr>;
                    st1 = st\<lparr>frame_table := (frame_table st)[tmp := frame2]\<rparr>
                in if pin_count frame2 = 0 then
                     (Inr (), st1\<lparr>replacement_pol := policy_unpin tmp (replacement_pol st1)\<rparr>)
                   else (Inr (), st1))))"

definition setDirty :: "PageId \<Rightarrow> 'd BufferManager \<Rightarrow> (error + unit) \<times> 'd BufferManager" where
  "setDirty pid st =
     (if \<not> BufferMap_contains (buf_map st) pid then (Inl (PageNotFoundBufMgr pid), st)
      else
        (case BufferMap_get (buf_map st) pid of
           Inl e \<Rightarrow> (Inl e, st)
         | Inr tmp \<Rightarrow>
             (Inr (), st\<lparr>frame_table := (frame_table st)
                          [tmp := (frame_table st ! tmp)\<lparr>dirty := True\<rparr>]\<rparr>)))"

definition flushPage ::
  "'d DiskManager \<Rightarrow> PageId \<Rightarrow> 'd BufferManager \<Rightarrow> (error + unit) \<times> 'd BufferManager" where
  "flushPage dm pid st =
     (if \<not> BufferMap_contains (buf_map st) pid then (Inl (PageNotFoundBufMgr pid), st)
      else
        (case BufferMap_get (buf_map st) pid of
           Inl e \<Rightarrow> (Inl e, st)
         | Inr tmp \<Rightarrow>
             if dirty (frame_table st ! tmp) then
               (case dm_writePage dm pid (buf_pool st ! tmp) (disk st) of
                  (Inl e, d) \<Rightarrow> (Inl e, st\<lparr>disk := d\<rparr>)
                | (Inr u, d) \<Rightarrow>
                    (Inr (), st\<lparr>disk := d,
                                frame_table := (frame_table st)
                                  [tmp := (frame_table st ! tmp)\<lparr>dirty := False\<rparr>]\<rparr>))
             else (Inr (), st)))"

definition createFile ::
  "'d DiskManager \<Rightarrow> FileId \<Rightarrow> 'd BufferManager \<Rightarrow> (error + unit) \<times> 'd BufferManager" where
  "createFile dm fid st = (case dm_createFile dm fid (disk st) of (r, d) \<Rightarrow> (r, st\<lparr>disk := d\<rparr>))"

text \<open>The \<^verbatim>\<open>for\<close> loop of \<^verbatim>\<open>removeFile\<close> from frame \<open>i\<close> on.\<close>

function removeFile_loop ::
  "nat \<Rightarrow> FileId \<Rightarrow> FrameId \<Rightarrow> 'd BufferManager \<Rightarrow> (error + unit) \<times> 'd BufferManager" where
  "removeFile_loop BUF_SIZE fid i st =
     (if i < BUF_SIZE then
        (let frame = frame_table st ! i in
         if valid frame \<and> file_id (page_id frame) = fid then
           (if pinned frame then (Inl (PagePinnedBufMgr (page_id frame)), st)
            else
              (case BufferMap_remove (buf_map st) (page_id frame) of
                 Inl e \<Rightarrow> (Inl e, st)
               | Inr m \<Rightarrow>
                   removeFile_loop BUF_SIZE fid (i + 1)
                     (st\<lparr>buf_map := m,
                         frame_table := (frame_table st)
                           [i := frame\<lparr>valid := False, dirty := False, pin_count := 0\<rparr>],
                         replacement_pol := policy_freeFrame i (replacement_pol st)\<rparr>)))
         else removeFile_loop BUF_SIZE fid (i + 1) st)
      else (Inr (), st))"
  by pat_completeness auto
termination
  by (relation "measure (\<lambda>(BUF_SIZE, fid, i, st). BUF_SIZE - i)") auto

definition removeFile ::
  "'d DiskManager \<Rightarrow> nat \<Rightarrow> FileId \<Rightarrow> 'd BufferManager \<Rightarrow> (error + unit) \<times> 'd BufferManager" where
  "removeFile dm BUF_SIZE fid st =
     (case removeFile_loop BUF_SIZE fid 0 st of
        (Inl e, st') \<Rightarrow> (Inl e, st')
      | (Inr u, st') \<Rightarrow>
          (case dm_removeFile dm fid (disk st') of (r, d) \<Rightarrow> (r, st'\<lparr>disk := d\<rparr>)))"

section \<open>A disk manager to run scenarios on\<close>

text \<open>
  Modelled from the spec: a disk manager with the interface and the typed failures the
  buffer manager expects of \<^verbatim>\<open>DiskManager\<close> (which is not among the sources). A file is
  known by the number of its next page; a page is allocated when it has content.
\<close>

record SimpleDisk =
  sd_size :: "FileId \<rightharpoonup> PageNum"
  sd_data :: "PageId \<rightharpoonup> Page"

definition simple_allocatePage :: "FileId \<Rightarrow> SimpleDisk \<Rightarrow> (error + PageId) \<times> SimpleDisk" where
  "simple_allocatePage fid d =
     (case sd_size d fid of
        None \<Rightarrow> (Inl InvalidFileIdDiskMgr, d)
      | Some n \<Rightarrow>
          (Inr \<lparr>file_id = fid, page_num = n\<rparr>,
           d\<lparr>sd_size := (sd_size d)(fid \<mapsto> n + 1),
             sd_data := (sd_data d)(\<lparr>file_id = fid, page_num = n\<rparr> \<mapsto> [])\<rparr>))"

definition simple_check :: "PageId \<Rightarrow> SimpleDisk \<Rightarrow> error option" where
  "simple_check pid d =
     (if sd_size d (file_id pid) = None then Some InvalidFileIdDiskMgr
      else if sd_data d pid = None then Some InvalidPageNumDiskMgr
      else None)"

definition simple_deallocatePage :: "PageId \<Rightarrow> SimpleDisk \<Rightarrow> (error + unit) \<times> SimpleDisk" where
  "simple_deallocatePage pid d =
     (case simple_check pid d of
        Some e \<Rightarrow> (Inl e, d)
      | None \<Rightarrow> (Inr (), d\<lparr>sd_data := (sd_data d)(pid := None)\<rparr>))"

definition simple_readPage :: "PageId \<Rightarrow> SimpleDisk \<Rightarrow> (error + Page) \<times> SimpleDisk" where
  "simple_readPage pid d =
     (case simple_check pid d of
        Some e \<Rightarrow> (Inl e, d)
      | None \<Rightarrow> (Inr (the (sd_data d pid)), d))"

definition simple_writePage :: "PageId \<Rightarrow> Page \<Rightarrow> SimpleDisk \<Rightarrow> (error + unit) \<times> SimpleDisk" where
  "simple_writePage pid pg d =
     (case simple_check pid d of
        Some e \<Rightarrow> (Inl e, d)
      | None \<Rightarrow> (Inr (), d\<lparr>sd_data := (sd_data d)(pid \<mapsto> pg)\<rparr>))"

definition simple_createFile :: "FileId \<Rightarrow> SimpleDisk \<Rightarrow> (error + unit) \<times> SimpleDisk" where
  "simple_createFile fid d = (Inr (), d\<lparr>sd_size := (sd_size d)(fid \<mapsto> 0)\<rparr>)"

definition simple_removeFile :: "FileId \<Rightarrow> SimpleDisk \<Rightarrow> (error + unit) \<times> SimpleDisk" where
  "simple_removeFile fid d =
     (if sd_size d fid = None then (Inl InvalidFileIdDiskMgr, d)
      else (Inr (),
            d\<lparr>sd_size := (sd_size d)(fid := None),
              sd_data := (\<lambda>pid. if file_id pid = fid then None else sd_data d pid)\<rparr>))"

definition simple_disk :: "SimpleDisk DiskManager" where
  "simple_disk =
     \<lparr>dm_allocatePage = simple_allocatePage, dm_deallocatePage = simple_deallocatePage,
      dm_readPage = simple_readPage, dm_writePage = simple_writePage,
      dm_createFile = simple_createFile, dm_removeFile = simple_removeFile\<rparr>"

text \<open>A disk with the one file \<open>0\<close> and no page.\<close>

definition disk0 :: SimpleDisk where
  "disk0 = \<lparr>sd_size = [0 \<mapsto> 0], sd_data = Map.empty\<rparr>"

text \<open>A disk with the file \<open>0\<close> and its page \<open>0\<close> allocated.\<close>

definition disk1 :: SimpleDisk where
  "disk1 = \<lparr>sd_size = [0 \<mapsto> 1], sd_data = [\<lparr>file_id = 0, page_num = 0\<rparr> \<mapsto> []]\<rparr>"

section \<open>Scenarios\<close>

text \<open>
  States reached by running the methods on the disk above, as the unit tests do. The pool
  has one frame under CLOCK and two frames under RANDOM; \<^verbatim>\<open>std::rand()\<close> returns 1 on
  every call.
\<close>

definition pgA :: PageId where "pgA = \<lparr>file_id = 0, page_num = 0\<rparr>"
definition pgB :: PageId where "pgB = \<lparr>file_id = 0, page_num = 1\<rparr>"

definition policy_free :: "Policy \<Rightarrow> FrameId list" where
  "policy_free pol = (case pol of ClockPol c \<Rightarrow> free c | RandomPol r \<Rightarrow> free r)"

definition policy_clock :: "Policy \<Rightarrow> Clock option" where
  "policy_clock pol = (case pol of ClockPol c \<Rightarrow> Some c | RandomPol r \<Rightarrow> None)"

definition clock_new1 :: "SimpleDisk BufferManager" where
  "clock_new1 = projr (BufferManager_new 1 disk0 ClockT [[]] 0 (\<lambda>n. 0))"

definition clock_alloc1 :: "SimpleDisk BufferManager" where
  "clock_alloc1 = snd (the (allocatePage simple_disk 1 0 clock_new1))"

text \<open>The caller writes the byte 7 through the pointer it holds, then releases the page
  as dirty.\<close>

definition clock_written1 :: "SimpleDisk BufferManager" where
  "clock_written1 = clock_alloc1\<lparr>buf_pool := [[7]]\<rparr>"

definition clock_released1 :: "SimpleDisk BufferManager" where
  "clock_released1 = snd (releasePage pgA True clock_written1)"

definition random_new2 :: "SimpleDisk BufferManager" where
  "random_new2 = projr (BufferManager_new 2 disk0 RandomT [[], []] 0 (\<lambda>n. 1))"

definition random_full2 :: "SimpleDisk BufferManager" where
  "random_full2 =
     snd (the (allocatePage simple_disk 2 0
                 (snd (the (allocatePage simple_disk 2 0 random_new2)))))"

definition random_one_free2 :: "SimpleDisk BufferManager" where
  "random_one_free2 = snd (releasePage pgA False random_full2)"

definition random_disk1 :: "SimpleDisk BufferManager" where
  "random_disk1 = projr (BufferManager_new 2 disk1 RandomT [[], []] 0 (\<lambda>n. 1))"

definition clock_dealloc1 :: "SimpleDisk BufferManager" where
  "clock_dealloc1 = snd (deallocatePage simple_disk pgA clock_released1)"

section \<open>Runs of the interface\<close>

text \<open>The loop of the unit test \<^verbatim>\<open>getPage1\<close>: \<open>n\<close> calls of \<^verbatim>\<open>getPage\<close> on the same page in
  a row, with the list of what the calls return.\<close>

fun getPage_times ::
  "'d DiskManager \<Rightarrow> nat \<Rightarrow> PageId \<Rightarrow> nat \<Rightarrow> 'd BufferManager \<Rightarrow>
     ((error + FrameId) list \<times> 'd BufferManager) option" where
  "getPage_times dm BUF_SIZE pid 0 st = Some ([], st)"
| "getPage_times dm BUF_SIZE pid (Suc n) st =
     (case getPage dm BUF_SIZE pid st of
        None \<Rightarrow> None
      | Some (r, st1) \<Rightarrow>
          (case getPage_times dm BUF_SIZE pid n st1 of
             None \<Rightarrow> None
           | Some (rs, st2) \<Rightarrow> Some (r # rs, st2)))"

text \<open>
  The states a caller can bring a manager into: it constructs one, calls the public
  methods (a call that raises leaves a state too; a call that does not return leaves
  none), and writes into the page slots through the pointers it was handed.
\<close>

inductive reachable :: "'d DiskManager \<Rightarrow> nat \<Rightarrow> 'd BufferManager \<Rightarrow> bool"
  for dm :: "'d DiskManager" and BUF_SIZE :: nat where
  construct:
    "BufferManager_new BUF_SIZE d rep_type pool npc rnd = Inr st \<Longrightarrow> reachable dm BUF_SIZE st"
| allocate:
    "reachable dm BUF_SIZE st \<Longrightarrow> allocatePage dm BUF_SIZE fid st = Some (ra, st') \<Longrightarrow>
       reachable dm BUF_SIZE st'"
| get:
    "reachable dm BUF_SIZE st \<Longrightarrow> getPage dm BUF_SIZE pid st = Some (rg, st') \<Longrightarrow>
       reachable dm BUF_SIZE st'"
| release:
    "reachable dm BUF_SIZE st \<Longrightarrow> releasePage pid dirty_flag st = (r, st') \<Longrightarrow>
       reachable dm BUF_SIZE st'"
| set_dirty:
    "reachable dm BUF_SIZE st \<Longrightarrow> setDirty pid st = (r, st') \<Longrightarrow> reachable dm BUF_SIZE st'"
| flush:
    "reachable dm BUF_SIZE st \<Longrightarrow> flushPage dm pid st = (r, st') \<Longrightarrow> reachable dm BUF_SIZE st'"
| deallocate:
    "reachable dm BUF_SIZE st \<Longrightarrow> deallocatePage dm pid st = (r, st') \<Longrightarrow>
       reachable dm BUF_SIZE st'"
| create_file:
    "reachable dm BUF_SIZE st \<Longrightarrow> createFile dm fid st = (r, st') \<Longrightarrow>
       reachable dm BUF_SIZE st'"
| remove_file:
    "reachable dm BUF_SIZE st \<Longrightarrow> removeFile dm BUF_SIZE fid st = (r, st') \<Longrightarrow>
       reachable dm BUF_SIZE st'"
| write_slot:
    "reachable dm BUF_SIZE st \<Longrightarrow> reachable dm BUF_SIZE (st\<lparr>buf_pool := pool\<rparr>)"

text \<open>What every reachable state satisfies: the table has \<^verbatim>\<open>BUF_SIZE\<close> frames, every
  entry of the map points to a valid frame that holds its key (M1), an invalid frame has
  pin count 0 and is clean, and the policy's indices are inside the table.\<close>

definition frames_ok :: "nat \<Rightarrow> BufferMap \<Rightarrow> Frame list \<Rightarrow> bool" where
  "frames_ok B m ft \<longleftrightarrow>
     length ft = B \<and>
     (\<forall>p f. m p = Some f \<longrightarrow> f < B \<and> valid (ft ! f) \<and> page_id (ft ! f) = p) \<and>
     (\<forall>i<B. \<not> valid (ft ! i) \<longrightarrow> pin_count (ft ! i) = 0 \<and> \<not> dirty (ft ! i))"

definition policy_ok :: "nat \<Rightarrow> Policy \<Rightarrow> bool" where
  "policy_ok B pol =
     (case pol of
        ClockPol c \<Rightarrow> (\<forall>f\<in>set (free c). f < B) \<and> clock_hand c < B
      | RandomPol r \<Rightarrow> (\<forall>f\<in>set (free r). f < B))"

definition bm_inv :: "nat \<Rightarrow> 'd BufferManager \<Rightarrow> bool" where
  "bm_inv B st \<longleftrightarrow> frames_ok B (buf_map st) (frame_table st) \<and> policy_ok B (replacement_pol st)"

section \<open>Properties\<close>

lemma contains_iff: "BufferMap_contains m p \<longleftrightarrow> m p \<noteq> None"
  by (simp add: BufferMap_contains_def split: option.splits)

subsection \<open>releasePage\<close>

lemma unat_dec: "w \<noteq> 0 \<Longrightarrow> Suc (unat (w - 1)) = unat w" for w :: "32 word"
  by (simp add: unat_minus_one unat_gt_0 Suc_leI)

text \<open>
  Claim C7. \<^verbatim>\<open>releasePage(p, dirty_flag)\<close> raises \<^verbatim>\<open>PageNotFoundBufMgr\<close> exactly when \<open>p\<close> is
  not in the map and \<^verbatim>\<open>PageNotPinnedBufMgr\<close> exactly when \<open>p\<close> is resident with pin count 0;
  an exception leaves the state as it was. Otherwise the call succeeds: the frame's dirty
  bit is the old one or-ed with the flag (set when the flag is true, never cleared), the
  pin count goes down by exactly one, nothing else in the frame table, the map, the pool
  or the disk changes, and the policy's \<^verbatim>\<open>unpin\<close> runs exactly when the new pin count is 0.
\<close>

theorem releasePage_contract:
  "(fst (releasePage p d st) = Inl (PageNotFoundBufMgr p) \<longleftrightarrow> buf_map st p = None) \<and>
   (fst (releasePage p d st) = Inl (PageNotPinnedBufMgr p) \<longleftrightarrow>
      (\<exists>f. buf_map st p = Some f \<and> pin_count (frame_table st ! f) = 0)) \<and>
   (\<forall>e. fst (releasePage p d st) = Inl e \<longrightarrow> snd (releasePage p d st) = st) \<and>
   (\<forall>f. buf_map st p = Some f \<and> pin_count (frame_table st ! f) \<noteq> 0 \<and>
        f < length (frame_table st) \<longrightarrow>
      (case releasePage p d st of
         (r, st') \<Rightarrow>
           r = Inr () \<and>
           pin_count (frame_table st' ! f) = pin_count (frame_table st ! f) - 1 \<and>
           Suc (unat (pin_count (frame_table st' ! f))) = unat (pin_count (frame_table st ! f)) \<and>
           dirty (frame_table st' ! f) = (dirty (frame_table st ! f) \<or> d) \<and>
           valid (frame_table st' ! f) = valid (frame_table st ! f) \<and>
           page_id (frame_table st' ! f) = page_id (frame_table st ! f) \<and>
           length (frame_table st') = length (frame_table st) \<and>
           (\<forall>j. j \<noteq> f \<longrightarrow> frame_table st' ! j = frame_table st ! j) \<and>
           buf_map st' = buf_map st \<and> buf_pool st' = buf_pool st \<and> disk st' = disk st \<and>
           replacement_pol st' =
             (if pin_count (frame_table st' ! f) = 0 then policy_unpin f (replacement_pol st)
              else replacement_pol st)))"
  by (auto simp: releasePage_def contains_iff BufferMap_get_def Let_def unat_dec
           split: option.splits sum.splits if_splits)

theorem releasePage_contract_witness:
  "(buf_map clock_new1 pgA = None \<and>
    releasePage pgA True clock_new1 = (Inl (PageNotFoundBufMgr pgA), clock_new1)) \<and>
   (buf_map clock_released1 pgA = Some 0 \<and> pin_count (frame_table clock_released1 ! 0) = 0 \<and>
    releasePage pgA True clock_released1 = (Inl (PageNotPinnedBufMgr pgA), clock_released1)) \<and>
   (buf_map clock_alloc1 pgA = Some 0 \<and> pin_count (frame_table clock_alloc1 ! 0) = 1 \<and>
    fst (releasePage pgA True clock_alloc1) = Inr () \<and>
    pin_count (frame_table (snd (releasePage pgA True clock_alloc1)) ! 0) = 0 \<and>
    dirty (frame_table (snd (releasePage pgA True clock_alloc1)) ! 0) \<and>
    replacement_pol (snd (releasePage pgA True clock_alloc1)) =
      policy_unpin 0 (replacement_pol clock_alloc1))"
proof -
  have a: "buf_map clock_new1 pgA = None"
    unfolding pgA_def clock_new1_def clock_alloc1_def clock_written1_def clock_released1_def
    by code_simp
  have b: "buf_map clock_released1 pgA = Some 0" "pin_count (frame_table clock_released1 ! 0) = 0"
    unfolding pgA_def clock_new1_def clock_alloc1_def clock_written1_def clock_released1_def
    by code_simp+
  have c: "buf_map clock_alloc1 pgA = Some 0" "pin_count (frame_table clock_alloc1 ! 0) = 1"
    "0 < length (frame_table clock_alloc1)" "\<not> dirty (frame_table clock_alloc1 ! 0)"
    unfolding pgA_def clock_new1_def clock_alloc1_def clock_written1_def clock_released1_def
    by code_simp+
  have "releasePage pgA True clock_new1 = (Inl (PageNotFoundBufMgr pgA), clock_new1)"
    using releasePage_contract [of pgA True clock_new1] a
    by (cases "releasePage pgA True clock_new1") auto
  moreover have "releasePage pgA True clock_released1 =
      (Inl (PageNotPinnedBufMgr pgA), clock_released1)"
    using releasePage_contract [of pgA True clock_released1] b
    by (cases "releasePage pgA True clock_released1") auto
  moreover have "fst (releasePage pgA True clock_alloc1) = Inr () \<and>
    pin_count (frame_table (snd (releasePage pgA True clock_alloc1)) ! 0) = 0 \<and>
    dirty (frame_table (snd (releasePage pgA True clock_alloc1)) ! 0) \<and>
    replacement_pol (snd (releasePage pgA True clock_alloc1)) =
      policy_unpin 0 (replacement_pol clock_alloc1)"
    using releasePage_contract [of pgA True clock_alloc1] c
    by (cases "releasePage pgA True clock_alloc1") auto
  ultimately show ?thesis using a b c by blast
qed

subsection \<open>Clock::replace with every frame pinned\<close>

lemma Clock_scan_Some_not_all_pinned:
  fixes fc :: "32 word"
  assumes "Clock_scan B ft fc c = Some y"
  shows "\<not> (0 < B \<and> clock_hand c < B \<and> (\<forall>i<B. pinned (ft ! i)))"
proof (rule Clock_scan.raw_induct
    [where P = "\<lambda>B ft fc c y. \<not> (0 < B \<and> clock_hand c < B \<and> (\<forall>i<B. pinned (ft ! i)))",
     OF _ assms])
  fix scan :: "nat \<Rightarrow> Frame list \<Rightarrow> 32 word \<Rightarrow> Clock \<Rightarrow> ((error + FrameId) \<times> Clock) option"
  fix B ft fc c y
  assume IH: "\<And>B ft fc c y. scan B ft fc c = Some y \<Longrightarrow>
                \<not> (0 < B \<and> clock_hand c < B \<and> (\<forall>i<B. pinned (ft ! i)))"
    and step: "(if pinned (ft ! clock_hand c) then
        scan B ft (fc + 1) (advanceClock B c)
      else if valid (ft ! clock_hand c) then
        (if ref_table c ! clock_hand c then
           (if B \<le> unat fc then
              Some (Inl InsufficientSpaceBufMgr,
                    advanceClock B (c\<lparr>ref_table := (ref_table c)[clock_hand c := False]\<rparr>))
            else scan B ft fc
                   (advanceClock B (c\<lparr>ref_table := (ref_table c)[clock_hand c := False]\<rparr>)))
         else Some (Inr (clock_hand c), advanceClock B (c\<lparr>rep_calls := rep_calls c + 1\<rparr>)))
      else if B \<le> unat fc then Some (Inl InsufficientSpaceBufMgr, c)
      else scan B ft fc c) = Some y"
  show "\<not> (0 < B \<and> clock_hand c < B \<and> (\<forall>i<B. pinned (ft ! i)))"
  proof
    assume a: "0 < B \<and> clock_hand c < B \<and> (\<forall>i<B. pinned (ft ! i))"
    then have "pinned (ft ! clock_hand c)" by simp
    with step have "scan B ft (fc + 1) (advanceClock B c) = Some y" by simp
    from IH [OF this] a show False by (simp add: advanceClock_def)
  qed
qed

text \<open>With every frame pinned the sweep meets \<^verbatim>\<open>continue\<close> in each iteration and never
  reaches the test that raises: the loop does not end.\<close>

lemma Clock_scan_all_pinned:
  "0 < B \<Longrightarrow> clock_hand c < B \<Longrightarrow> \<forall>i<B. pinned (ft ! i) \<Longrightarrow> Clock_scan B ft fc c = None"
  using Clock_scan_Some_not_all_pinned [of B ft fc c] by (cases "Clock_scan B ft fc c") auto

lemma Clock_replace_all_pinned:
  "0 < B \<Longrightarrow> clock_hand c < B \<Longrightarrow> free c = [] \<Longrightarrow> \<forall>i<B. pinned (ft ! i) \<Longrightarrow>
     Clock_replace B ft c = None"
  by (simp add: Clock_replace_def Clock_scan_all_pinned)

text \<open>
  Claim C3 (the code departs from it). After one \<^verbatim>\<open>allocatePage\<close> into a pool of one frame
  the free list is empty and the only frame is pinned. \<^verbatim>\<open>Clock::replace\<close> called in that
  state does not raise \<^verbatim>\<open>InsufficientSpaceBufMgr\<close>: it returns nothing at all.
\<close>

theorem Clock_replace_all_pinned_diverges:
  "policy_free (replacement_pol clock_alloc1) = [] \<and>
   length (frame_table clock_alloc1) = 1 \<and>
   pinned (frame_table clock_alloc1 ! 0) \<and>
   policy_replace 1 (frame_table clock_alloc1) (replacement_pol clock_alloc1) = None"
proof -
  have "policy_clock (replacement_pol clock_alloc1) =
      Some \<lparr>free = [], rep_calls = 0, new_page_calls = 0, clock_hand = 0,
             ref_table = [False]\<rparr>"
    unfolding clock_new1_def clock_alloc1_def by code_simp
  then have pol: "replacement_pol clock_alloc1 =
      ClockPol \<lparr>free = [], rep_calls = 0, new_page_calls = 0, clock_hand = 0,
                ref_table = [False]\<rparr>"
    by (cases "replacement_pol clock_alloc1") (simp_all add: policy_clock_def)
  have ft: "length (frame_table clock_alloc1) = 1" "pinned (frame_table clock_alloc1 ! 0)"
    unfolding clock_new1_def clock_alloc1_def by code_simp+
  have "Clock_replace 1 (frame_table clock_alloc1)
          \<lparr>free = [], rep_calls = 0, new_page_calls = 0, clock_hand = 0, ref_table = [False]\<rparr>
        = None"
    by (rule Clock_replace_all_pinned) (simp_all add: ft)
  then show ?thesis
    by (simp add: pol ft policy_replace_def policy_free_def)
qed

subsection \<open>Runs on which the code departs from its description\<close>

text \<open>
  Claim C1 (the code departs from it). One frame under CLOCK holds page \<open>pgA\<close>, unpinned.
  \<^verbatim>\<open>getPage(pgB)\<close> for a page the disk does not have chooses that frame, removes \<open>pgA\<close> from
  the map and then fails in \<^verbatim>\<open>readPage\<close> with \<^verbatim>\<open>InvalidPageIdBufMgr\<close>. The frame is left
  valid with \<open>page_id = pgA\<close>, and \<open>pgA\<close> is not in the map: invariant M2 is broken.
\<close>

theorem getPage_read_error_breaks_M2:
  "buf_map clock_released1 pgB = None \<and>
   map_option fst (getPage simple_disk 1 pgB clock_released1) =
     Some (Inl (InvalidPageIdBufMgr pgB)) \<and>
   valid (frame_table (snd (the (getPage simple_disk 1 pgB clock_released1))) ! 0) \<and>
   page_id (frame_table (snd (the (getPage simple_disk 1 pgB clock_released1))) ! 0) = pgA \<and>
   buf_map (snd (the (getPage simple_disk 1 pgB clock_released1))) pgA = None"
  unfolding pgB_def pgA_def clock_new1_def clock_alloc1_def clock_written1_def clock_released1_def
  by code_simp

text \<open>
  Claim C4 (the code departs from it). The only frame holds \<open>pgA\<close>, unpinned and dirty, with
  the byte 7 in its slot; the disk still has the empty page. \<^verbatim>\<open>allocatePage\<close> evicts the
  frame for the new page \<open>pgB\<close>, and afterwards the disk's copy of \<open>pgA\<close> is still the empty
  page: nothing was written back.
\<close>

theorem allocatePage_drops_dirty_page:
  "policy_free (replacement_pol clock_released1) = [] \<and>
   valid (frame_table clock_released1 ! 0) \<and> dirty (frame_table clock_released1 ! 0) \<and>
   pin_count (frame_table clock_released1 ! 0) = 0 \<and>
   page_id (frame_table clock_released1 ! 0) = pgA \<and> buf_pool clock_released1 ! 0 = [7] \<and>
   sd_data (disk clock_released1) pgA = Some [] \<and>
   map_option fst (allocatePage simple_disk 1 0 clock_released1) = Some (Inr (0, pgB)) \<and>
   page_id (frame_table (snd (the (allocatePage simple_disk 1 0 clock_released1))) ! 0) = pgB \<and>
   buf_map (snd (the (allocatePage simple_disk 1 0 clock_released1))) pgA = None \<and>
   sd_data (disk (snd (the (allocatePage simple_disk 1 0 clock_released1)))) pgA = Some []"
  unfolding pgB_def pgA_def clock_new1_def clock_alloc1_def clock_written1_def clock_released1_def
  by code_simp

text \<open>
  Claim C2 (the code departs from it). Two frames under RANDOM, both filled through
  \<^verbatim>\<open>allocatePage\<close>, frame 0 released, the free list empty. Both draws of \<^verbatim>\<open>std::rand()\<close> give
  frame 1; the loop stops after \<^verbatim>\<open>BUF_SIZE/2\<close> retries and \<^verbatim>\<open>replace\<close> returns frame 1, whose
  pin count is 1.
\<close>

theorem Random_replace_returns_pinned_frame:
  "policy_free (replacement_pol random_one_free2) = [] \<and>
   getNumUnpinned 2 random_one_free2 = 1 \<and>
   map_option fst (policy_replace 2 (frame_table random_one_free2)
                     (replacement_pol random_one_free2)) = Some (Inr 1) \<and>
   pin_count (frame_table random_one_free2 ! 1) = 1"
  unfolding pgA_def random_new2_def random_full2_def random_one_free2_def by code_simp

text \<open>
  Claim C5 (the code departs from it). With both frames pinned and the free list empty,
  \<^verbatim>\<open>Random::replace\<close> returns frame 1 where the claim has \<^verbatim>\<open>InsufficientSpaceBufMgr\<close>; with
  frame 0 unpinned and the draws missing it, it returns frame 1 where a linear scan would
  select frame 0. The counter \<^verbatim>\<open>c\<close> stops at \<^verbatim>\<open>BUF_SIZE/2\<close> and the scan is guarded by
  \<^verbatim>\<open>c == BUF_SIZE\<close>.
\<close>

theorem Random_replace_no_linear_scan:
  "policy_free (replacement_pol random_full2) = [] \<and>
   pin_count (frame_table random_full2 ! 0) = 1 \<and>
   pin_count (frame_table random_full2 ! 1) = 1 \<and>
   map_option fst (policy_replace 2 (frame_table random_full2) (replacement_pol random_full2))
     = Some (Inr 1) \<and>
   policy_free (replacement_pol random_one_free2) = [] \<and>
   pin_count (frame_table random_one_free2 ! 0) = 0 \<and>
   map_option fst (policy_replace 2 (frame_table random_one_free2)
                     (replacement_pol random_one_free2)) = Some (Inr 1)"
  unfolding pgA_def random_new2_def random_full2_def random_one_free2_def by code_simp

text \<open>
  Claim C9 (the code departs from it). A successful \<^verbatim>\<open>allocatePage\<close> and a successful
  miss-fill by \<^verbatim>\<open>getPage\<close> both leave \<^verbatim>\<open>new_page_calls\<close> at 0: no method of the manager
  calls \<^verbatim>\<open>incrementGetAllocCount\<close>.
\<close>

theorem new_page_calls_not_incremented:
  "rs_new_page_calls (getRepStats (replacement_pol random_new2)) = 0 \<and>
   map_option fst (allocatePage simple_disk 2 0 random_new2) = Some (Inr (0, pgA)) \<and>
   rs_new_page_calls (getRepStats (replacement_pol
     (snd (the (allocatePage simple_disk 2 0 random_new2))))) = 0 \<and>
   buf_map random_disk1 pgA = None \<and>
   map_option fst (getPage simple_disk 2 pgA random_disk1) = Some (Inr 0) \<and>
   rs_new_page_calls (getRepStats (replacement_pol
     (snd (the (getPage simple_disk 2 pgA random_disk1))))) = 0"
  unfolding pgA_def random_new2_def random_disk1_def by code_simp

subsection \<open>The invariant of the frame table and the map\<close>

lemma frames_ok_update_valid:
  "frames_ok B m ft \<Longrightarrow> f < B \<Longrightarrow> valid fr \<Longrightarrow> (\<forall>p. m p = Some f \<longrightarrow> page_id fr = p) \<Longrightarrow>
     frames_ok B m (ft[f := fr])"
  unfolding frames_ok_def by (auto simp: nth_list_update)

lemma frames_ok_update_invalid:
  "frames_ok B m ft \<Longrightarrow> \<not> valid fr \<Longrightarrow> pin_count fr = 0 \<Longrightarrow> \<not> dirty fr \<Longrightarrow>
     (\<forall>p. m p \<noteq> Some f) \<Longrightarrow> frames_ok B m (ft[f := fr])"
  unfolding frames_ok_def by (cases "f < length ft") (auto simp: nth_list_update list_update_beyond)

lemma frames_ok_remove: "frames_ok B m ft \<Longrightarrow> frames_ok B (m(p := None)) ft"
  unfolding frames_ok_def by auto

lemma frames_ok_insert:
  "frames_ok B m ft \<Longrightarrow> f < B \<Longrightarrow> valid (ft ! f) \<Longrightarrow> page_id (ft ! f) = p \<Longrightarrow>
     frames_ok B (m(p \<mapsto> f)) ft"
  unfolding frames_ok_def by auto

lemma frames_ok_no_entry_removed:
  "frames_ok B m ft \<Longrightarrow> (m(page_id (ft ! f) := None)) q \<noteq> Some f"
  unfolding frames_ok_def by auto

lemma frames_ok_no_entry_invalid:
  "frames_ok B m ft \<Longrightarrow> \<not> valid (ft ! f) \<Longrightarrow> m q \<noteq> Some f"
  unfolding frames_ok_def by auto

lemma frames_ok_entry:
  "frames_ok B m ft \<Longrightarrow> m p = Some f \<Longrightarrow> f < B \<and> valid (ft ! f) \<and> page_id (ft ! f) = p"
  unfolding frames_ok_def by auto

lemma frames_ok_length: "frames_ok B m ft \<Longrightarrow> length ft = B"
  unfolding frames_ok_def by auto

subsection \<open>What replace returns lies inside the table\<close>

lemma free_tl_ok: "\<forall>f\<in>set xs. f < (B::nat) \<Longrightarrow> \<forall>f\<in>set (tl xs). f < B"
  by (cases xs) auto

lemma free_hd_ok: "xs \<noteq> [] \<Longrightarrow> \<forall>f\<in>set xs. f < (B::nat) \<Longrightarrow> hd xs < B"
  by (cases xs) auto

lemma Clock_scan_ok:
  fixes fc :: "32 word"
  assumes "Clock_scan B ft fc c = Some y"
  shows "0 < B \<longrightarrow> clock_hand c < B \<longrightarrow>
           clock_hand (snd y) < B \<and> free (snd y) = free c \<and> (\<forall>f. fst y = Inr f \<longrightarrow> f < B)"
proof (rule Clock_scan.raw_induct
    [where P = "\<lambda>B ft fc c y. 0 < B \<longrightarrow> clock_hand c < B \<longrightarrow>
           clock_hand (snd y) < B \<and> free (snd y) = free c \<and> (\<forall>f. fst y = Inr f \<longrightarrow> f < B)",
     OF _ assms])
  fix scan :: "nat \<Rightarrow> Frame list \<Rightarrow> 32 word \<Rightarrow> Clock \<Rightarrow> ((error + FrameId) \<times> Clock) option"
  fix B ft fc c y
  assume IH: "\<And>B ft fc c y. scan B ft fc c = Some y \<Longrightarrow>
                0 < B \<longrightarrow> clock_hand c < B \<longrightarrow>
           clock_hand (snd y) < B \<and> free (snd y) = free c \<and> (\<forall>f. fst y = Inr f \<longrightarrow> f < B)"
    and step: "(if pinned (ft ! clock_hand c) then
        scan B ft (fc + 1) (advanceClock B c)
      else if valid (ft ! clock_hand c) then
        (if ref_table c ! clock_hand c then
           (if B \<le> unat fc then
              Some (Inl InsufficientSpaceBufMgr,
                    advanceClock B (c\<lparr>ref_table := (ref_table c)[clock_hand c := False]\<rparr>))
            else scan B ft fc
                   (advanceClock B (c\<lparr>ref_table := (ref_table c)[clock_hand c := False]\<rparr>)))
         else Some (Inr (clock_hand c), advanceClock B (c\<lparr>rep_calls := rep_calls c + 1\<rparr>)))
      else if B \<le> unat fc then Some (Inl InsufficientSpaceBufMgr, c)
      else scan B ft fc c) = Some y"
  show "0 < B \<longrightarrow> clock_hand c < B \<longrightarrow>
           clock_hand (snd y) < B \<and> free (snd y) = free c \<and> (\<forall>f. fst y = Inr f \<longrightarrow> f < B)"
    using step
    by (auto simp: advanceClock_def split: if_splits dest!: IH)
qed

lemma Random_draw_ok:
  "0 < B \<Longrightarrow> rn < B \<Longrightarrow> fst (Random_draw B ft rnd rn c calls) < B"
  by (induction B ft rnd rn c calls rule: Random_draw.induct) simp

lemma Random_draw_count:
  "c \<le> B div 2 \<Longrightarrow> fst (snd (Random_draw B ft rnd rn c calls)) \<le> B div 2"
  by (induction B ft rnd rn c calls rule: Random_draw.induct) simp

text \<open>The linear scan of \<^verbatim>\<open>Random::replace\<close> is guarded by \<^verbatim>\<open>c == BUF_SIZE\<close>, and the draw loop
  leaves \<^verbatim>\<open>c\<close> at most \<^verbatim>\<open>BUF_SIZE/2\<close>: for a pool that has a frame the scan never runs,
  and \<^verbatim>\<open>replace\<close> never raises.\<close>

lemma Random_replace_never_raises:
  assumes "0 < B"
  shows "fst (Random_replace B ft r) \<noteq> Inl e"
proof -
  obtain rn c calls where
    d: "Random_draw B ft (rand_src r) (rand_src r (rand_calls r) mod B) 0 (rand_calls r + 1)
          = (rn, c, calls)"
    by (metis prod_cases3)
  have "fst (snd (Random_draw B ft (rand_src r) (rand_src r (rand_calls r) mod B) 0
                    (rand_calls r + 1))) \<le> B div 2"
    by (rule Random_draw_count) simp
  with d have "c \<le> B div 2" by simp
  moreover have "B div 2 < B" using assms by simp
  ultimately have "c \<noteq> B" by linarith
  with d show ?thesis
    by (simp add: Random_replace_def Random_chosen_def del: Random_draw.simps)
qed

lemma find_upt_less: "find P [0..<B] = Some i \<Longrightarrow> i < B"
  by (auto simp: find_Some_iff)

lemma Clock_replace_ok:
  assumes "0 < B" "\<forall>f\<in>set (free c). f < B" "clock_hand c < B"
    and "Clock_replace B ft c = Some (r, c')"
  shows "(\<forall>f\<in>set (free c'). f < B) \<and> clock_hand c' < B \<and> (\<forall>f. r = Inr f \<longrightarrow> f < B)"
proof (cases "free c = []")
  case True
  with assms(4) have s: "Clock_scan B ft 0 c = Some (r, c')"
    by (simp add: Clock_replace_def)
  from Clock_scan_ok [OF s] assms(1-3) show ?thesis by simp
next
  case False
  with assms(4) have "r = Inr (hd (free c))" "c' = c\<lparr>free := tl (free c)\<rparr>"
    by (simp_all add: Clock_replace_def)
  with free_tl_ok [OF assms(2)] free_hd_ok [OF False assms(2)] assms(3) show ?thesis by simp
qed

lemma Random_replace_ok:
  assumes "0 < B" "\<forall>f\<in>set (free rp). f < B"
    and "Random_replace B ft rp = (r, rp')"
  shows "(\<forall>f\<in>set (free rp'). f < B) \<and> (\<forall>f. r = Inr f \<longrightarrow> f < B)"
proof (cases "free rp = []")
  case True
  obtain rn c calls where
    d: "Random_draw B ft (rand_src rp) (rand_src rp (rand_calls rp) mod B) 0 (rand_calls rp + 1)
          = (rn, c, calls)"
    by (metis prod_cases3)
  have "fst (Random_draw B ft (rand_src rp) (rand_src rp (rand_calls rp) mod B) 0
                (rand_calls rp + 1)) < B"
    by (rule Random_draw_ok) (use assms(1) in auto)
  with d have rn: "rn < B" by simp
  show ?thesis
  proof (cases "c = B")
    case c: True
    show ?thesis
    proof (cases "find (\<lambda>i. pin_count (ft ! i) = 0) [0..<B]")
      case None
      with assms(3) True d c have "r = Inl InsufficientSpaceBufMgr" "free rp' = []"
        by (auto simp: Random_replace_def)
      then show ?thesis by simp
    next
      case (Some i)
      with assms(3) True d c have "r = Inr i" "free rp' = []"
        by (auto simp: Random_replace_def Random_chosen_def)
      with find_upt_less [OF Some] show ?thesis by simp
    qed
  next
    case False
    with assms(3) True d have "r = Inr rn" "free rp' = []"
      by (auto simp: Random_replace_def Random_chosen_def)
    with rn show ?thesis by simp
  qed
next
  case False
  with assms(3) have "r = Inr (hd (free rp))" "rp' = rp\<lparr>free := tl (free rp)\<rparr>"
    by (simp_all add: Random_replace_def)
  with free_tl_ok [OF assms(2)] free_hd_ok [OF False assms(2)] show ?thesis by simp
qed

lemma policy_replace_ok:
  assumes "0 < B" "policy_ok B pol" "policy_replace B ft pol = Some (r, pol')"
  shows "policy_ok B pol' \<and> (\<forall>f. r = Inr f \<longrightarrow> f < B)"
proof (cases pol)
  case (ClockPol c)
  with assms(3) obtain c' where s: "Clock_replace B ft c = Some (r, c')" and p: "pol' = ClockPol c'"
    by (auto simp: policy_replace_def split: option.splits)
  from assms(2) ClockPol have "\<forall>f\<in>set (free c). f < B" "clock_hand c < B"
    by (simp_all add: policy_ok_def)
  from Clock_replace_ok [OF assms(1) this s] p show ?thesis by (simp add: policy_ok_def)
next
  case (RandomPol rp)
  with assms(3) obtain rp' where s: "Random_replace B ft rp = (r, rp')" and p: "pol' = RandomPol rp'"
    by (auto simp: policy_replace_def split: prod.splits)
  from assms(2) RandomPol have "\<forall>f\<in>set (free rp). f < B"
    by (simp_all add: policy_ok_def)
  from Random_replace_ok [OF assms(1) this s] p show ?thesis by (simp add: policy_ok_def)
qed

lemma policy_pin_ok: "policy_ok B pol \<Longrightarrow> policy_ok B (policy_pin f pol)"
  by (auto simp: policy_ok_def policy_pin_def Clock_pin_def Random_pin_def split: Policy.splits)

lemma policy_unpin_ok: "policy_ok B pol \<Longrightarrow> policy_ok B (policy_unpin f pol)"
  by (auto simp: policy_ok_def policy_unpin_def Clock_unpin_def Random_unpin_def split: Policy.splits)

lemma policy_freeFrame_ok: "policy_ok B pol \<Longrightarrow> f < B \<Longrightarrow> policy_ok B (policy_freeFrame f pol)"
  by (auto simp: policy_ok_def policy_freeFrame_def Clock_freeFrame_def Random_freeFrame_def
           split: Policy.splits)

subsection \<open>Every method keeps the invariant\<close>

lemma bm_inv_new:
  assumes "0 < B" "BufferManager_new B d rep_type pool npc rnd = Inr st"
  shows "bm_inv B st"
proof -
  have f: "frames_ok B Map.empty (replicate B Frame_new)"
    by (simp add: frames_ok_def Frame_new_def)
  have c: "\<forall>f\<in>set (createFree B ft). f < B" for ft
    by (simp add: createFree_def)
  from assms f c show ?thesis
    by (cases rep_type)
       (auto simp: BufferManager_new_def bm_inv_def policy_ok_def Clock_new_def Random_new_def)
qed

lemma bm_inv_releasePage:
  assumes "bm_inv B st" "releasePage pid d st = (r, st')"
  shows "bm_inv B st'"
proof (cases "buf_map st pid")
  case None
  with assms show ?thesis by (simp add: releasePage_def contains_iff)
next
  case (Some f)
  from assms(1) have fo: "frames_ok B (buf_map st) (frame_table st)"
    and po: "policy_ok B (replacement_pol st)" by (simp_all add: bm_inv_def)
  note e = frames_ok_entry [OF fo Some]
  let ?fr = "(if d then (frame_table st ! f)\<lparr>dirty := True\<rparr> else frame_table st ! f)
               \<lparr>pin_count := pin_count (frame_table st ! f) - 1\<rparr>"
  have "frames_ok B (buf_map st) ((frame_table st)[f := ?fr])"
    by (rule frames_ok_update_valid [OF fo]) (use e fo in \<open>auto dest: frames_ok_entry\<close>)
  with assms Some po show ?thesis
    by (auto simp: releasePage_def contains_iff BufferMap_get_def Let_def bm_inv_def
                   policy_unpin_ok split: if_splits)
qed

lemma bm_inv_setDirty:
  assumes "bm_inv B st" "setDirty pid st = (r, st')"
  shows "bm_inv B st'"
proof (cases "buf_map st pid")
  case None
  with assms show ?thesis by (simp add: setDirty_def contains_iff)
next
  case (Some f)
  from assms(1) have fo: "frames_ok B (buf_map st) (frame_table st)"
    and po: "policy_ok B (replacement_pol st)" by (simp_all add: bm_inv_def)
  note e = frames_ok_entry [OF fo Some]
  have "frames_ok B (buf_map st) ((frame_table st)[f := (frame_table st ! f)\<lparr>dirty := True\<rparr>])"
    by (rule frames_ok_update_valid [OF fo]) (use e fo in \<open>auto dest: frames_ok_entry\<close>)
  with assms Some po show ?thesis
    by (auto simp: setDirty_def contains_iff BufferMap_get_def bm_inv_def)
qed

lemma bm_inv_flushPage:
  assumes "bm_inv B st" "flushPage dm pid st = (r, st')"
  shows "bm_inv B st'"
proof (cases "buf_map st pid")
  case None
  with assms show ?thesis by (simp add: flushPage_def contains_iff)
next
  case (Some f)
  from assms(1) have fo: "frames_ok B (buf_map st) (frame_table st)"
    and po: "policy_ok B (replacement_pol st)" by (simp_all add: bm_inv_def)
  note e = frames_ok_entry [OF fo Some]
  have "frames_ok B (buf_map st) ((frame_table st)[f := (frame_table st ! f)\<lparr>dirty := False\<rparr>])"
    by (rule frames_ok_update_valid [OF fo]) (use e fo in \<open>auto dest: frames_ok_entry\<close>)
  with assms Some po fo show ?thesis
    by (auto simp: flushPage_def contains_iff BufferMap_get_def bm_inv_def
             split: if_splits prod.splits sum.splits)
qed

lemma bm_inv_createFile:
  "bm_inv B st \<Longrightarrow> createFile dm fid st = (r, st') \<Longrightarrow> bm_inv B st'"
  by (auto simp: createFile_def bm_inv_def split: prod.splits)

lemma bm_inv_write_slot: "bm_inv B st \<Longrightarrow> bm_inv B (st\<lparr>buf_pool := pool\<rparr>)"
  by (simp add: bm_inv_def)

lemma bm_inv_disk: "bm_inv B st \<Longrightarrow> bm_inv B (st\<lparr>disk := d\<rparr>)"
  by (simp add: bm_inv_def)

text \<open>Taking a frame out of service: its key leaves the map and its three fields are
  cleared, as \<^verbatim>\<open>_allocateFrame\<close>, \<^verbatim>\<open>deallocatePage\<close> and \<^verbatim>\<open>removeFile\<close> do.\<close>

lemma frames_ok_evict:
  assumes "frames_ok B m ft"
  shows "frames_ok B (m(page_id (ft ! f) := None))
           (ft[f := (ft ! f)\<lparr>valid := False, dirty := False, pin_count := 0\<rparr>])"
  by (rule frames_ok_update_invalid)
     (use assms in \<open>auto intro: frames_ok_remove dest: frames_ok_no_entry_removed
        simp del: fun_upd_apply\<close>)

lemma frames_ok_clear_invalid:
  assumes "frames_ok B m ft" "\<not> valid (ft ! f)"
  shows "frames_ok B m (ft[f := (ft ! f)\<lparr>valid := False, dirty := False, pin_count := 0\<rparr>])"
  by (rule frames_ok_update_invalid)
     (use assms in \<open>auto dest: frames_ok_no_entry_invalid\<close>)

lemma bm_inv_deallocatePage:
  assumes "bm_inv B st" "deallocatePage dm pid st = (r, st')"
  shows "bm_inv B st'"
proof (cases "buf_map st pid")
  case None
  with assms show ?thesis
    by (auto simp: deallocatePage_def contains_iff bm_inv_def split: prod.splits)
next
  case (Some f)
  from assms(1) have fo: "frames_ok B (buf_map st) (frame_table st)"
    and po: "policy_ok B (replacement_pol st)" by (simp_all add: bm_inv_def)
  note e = frames_ok_entry [OF fo Some]
  from frames_ok_evict [OF fo, of f] e
  have "frames_ok B ((buf_map st)(pid := None))
          ((frame_table st)[f := (frame_table st ! f)\<lparr>valid := False, dirty := False, pin_count := 0\<rparr>])"
    by simp
  with assms Some po fo e show ?thesis
    by (auto simp: deallocatePage_def contains_iff BufferMap_get_def BufferMap_remove_def
                   Let_def bm_inv_def policy_freeFrame_ok
             split: if_splits prod.splits)
qed

text \<open>What \<^verbatim>\<open>_allocateFrame\<close> hands back: a frame inside the table to which no entry of the
  map points.\<close>

lemma allocateFrame_ok:
  assumes B: "0 < B" and inv: "bm_inv B st"
    and a: "allocateFrame B st = Some (r, st')"
  shows "bm_inv B st' \<and> disk st' = disk st \<and>
         (\<forall>f. r = Inr f \<longrightarrow> f < B \<and> (\<forall>q. buf_map st' q \<noteq> Some f))"
proof -
  from inv have fo: "frames_ok B (buf_map st) (frame_table st)"
    and po: "policy_ok B (replacement_pol st)" by (simp_all add: bm_inv_def)
  from a obtain rr pol where
    rep: "policy_replace B (frame_table st) (replacement_pol st) = Some (rr, pol)"
    by (auto simp: allocateFrame_def split: option.splits)
  from policy_replace_ok [OF B po rep] have po': "policy_ok B pol"
    and rng: "\<And>f. rr = Inr f \<Longrightarrow> f < B" by simp_all
  show ?thesis
  proof (cases rr)
    case (Inl e)
    with a rep fo po' show ?thesis by (auto simp: allocateFrame_def bm_inv_def)
  next
    case (Inr f)
    note f = rng [OF Inr]
    show ?thesis
    proof (cases "valid (frame_table st ! f)")
      case False
      from frames_ok_clear_invalid [OF fo False] frames_ok_no_entry_invalid [OF fo False]
      show ?thesis using a rep Inr False po' f
        by (auto simp: allocateFrame_def bm_inv_def Let_def)
    next
      case True
      show ?thesis
      proof (cases "buf_map st (page_id (frame_table st ! f))")
        case None
        with a rep Inr True po' fo show ?thesis
          by (auto simp: allocateFrame_def bm_inv_def Let_def BufferMap_remove_def contains_iff)
      next
        case (Some g)
        have ne: "\<And>q. ((buf_map st)(page_id (frame_table st ! f) := None)) q \<noteq> Some f"
          by (rule frames_ok_no_entry_removed [OF fo])
        from frames_ok_evict [OF fo, of f] ne
        show ?thesis using a rep Inr True po' f Some
          by (auto simp: allocateFrame_def bm_inv_def Let_def BufferMap_remove_def contains_iff
                   simp del: fun_upd_apply)
      qed
    qed
  qed
qed

lemma bm_inv_allocatePage:
  assumes B: "0 < B" and inv: "bm_inv B st"
    and a: "allocatePage dm B fid st = Some (r, st')"
  shows "bm_inv B st'"
proof (cases "getNumUnpinned B st = 0")
  case True
  with a inv show ?thesis by (simp add: allocatePage_def)
next
  case False
  obtain rd d where dr: "dm_allocatePage dm fid (disk st) = (rd, d)" by (cases "dm_allocatePage dm fid (disk st)")
  show ?thesis
  proof (cases rd)
    case (Inl e)
    with a False dr inv show ?thesis by (auto simp: allocatePage_def bm_inv_disk)
  next
    case (Inr pid)
    with a False dr obtain rf st1 where
      af: "allocateFrame B (st\<lparr>disk := d\<rparr>) = Some (rf, st1)"
      by (auto simp: allocatePage_def split: option.splits)
    from allocateFrame_ok [OF B bm_inv_disk [OF inv] af]
    have inv1: "bm_inv B st1"
      and fr: "\<And>f. rf = Inr f \<Longrightarrow> f < B \<and> (\<forall>q. buf_map st1 q \<noteq> Some f)" by simp_all
    show ?thesis
    proof (cases rf)
      case (Inl e)
      with a False dr Inr af inv1 show ?thesis by (auto simp: allocatePage_def)
    next
      case rfr: (Inr f)
      from inv1 have fo: "frames_ok B (buf_map st1) (frame_table st1)"
        and po: "policy_ok B (replacement_pol st1)" by (simp_all add: bm_inv_def)
      let ?fr = "(frame_table st1 ! f)\<lparr>page_id := pid, valid := True, pin_count := 1, dirty := False\<rparr>"
      have fo2: "frames_ok B (buf_map st1) ((frame_table st1)[f := ?fr])"
        by (rule frames_ok_update_valid [OF fo]) (use fr [OF rfr] in auto)
      have len: "length (frame_table st1) = B" by (rule frames_ok_length [OF fo])
      have fo3: "frames_ok B ((buf_map st1)(pid \<mapsto> f)) ((frame_table st1)[f := ?fr])"
        by (rule frames_ok_insert [OF fo2]) (use fr [OF rfr] len in auto)
      from a False dr Inr af rfr fo2 fo3 po show ?thesis
        by (auto simp: allocatePage_def Let_def bm_inv_def BufferMap_insert_def policy_pin_ok
                 split: if_splits)
    qed
  qed
qed

text \<open>The frame table, the map and the policy after a miss in \<^verbatim>\<open>getPage\<close>, whatever the
  outcome: one of the five stages of the method.\<close>

lemma getPage_miss_shape:
  fixes st :: "'d BufferManager" and f :: FrameId and pid :: PageId
  defines "fr \<equiv> frame_table st ! f"
  defines "ft2 \<equiv> (if valid fr \<and> dirty fr then (frame_table st)[f := fr\<lparr>dirty := False\<rparr>]
                   else frame_table st)"
  defines "m3 \<equiv> (if valid fr then (buf_map st)(page_id fr := None) else buf_map st)"
  defines "ft4 \<equiv> ft2[f := (ft2 ! f)\<lparr>page_id := pid, valid := True, pin_count := 1, dirty := False\<rparr>]"
  assumes miss: "buf_map st pid = None" "getNumUnpinned B st \<noteq> 0"
    and rep: "policy_replace B (frame_table st) (replacement_pol st) = Some (Inr f, pol)"
    and f: "f < length (frame_table st)"
    and g: "getPage dm B pid st = Some (r, st')"
  shows "(frame_table st', buf_map st', replacement_pol st') \<in>
           {(frame_table st, buf_map st, pol), (ft2, buf_map st, pol), (ft2, m3, pol),
            (ft4, m3, pol), (ft4, m3(pid \<mapsto> f), policy_pin f pol)}"
proof -
  obtain rw dw where w: "dm_writePage dm (page_id fr) (buf_pool st ! f) (disk st) = (rw, dw)"
    by (cases "dm_writePage dm (page_id fr) (buf_pool st ! f) (disk st)")
  obtain rd dr where rd: "dm_readPage dm pid (if valid fr \<and> dirty fr then dw else disk st) = (rd, dr)"
    by (cases "dm_readPage dm pid (if valid fr \<and> dirty fr then dw else disk st)")
  from g [symmetric] miss rep have g': "Some (r, st') = (let st1 = st\<lparr>replacement_pol := pol\<rparr>; frame = frame_table st1 ! f in
              case (if valid frame \<and> dirty frame then
                      (case dm_writePage dm (page_id frame) (buf_pool st1 ! f) (disk st1) of
                         (Inl e, d) \<Rightarrow> Inl (e, st1\<lparr>disk := d\<rparr>)
                       | (Inr u, d) \<Rightarrow>
                           Inr (st1\<lparr>disk := d,
                                    frame_table := (frame_table st1)
                                      [f := frame\<lparr>dirty := False\<rparr>]\<rparr>))
                    else Inr st1) of
                Inl (e, st2) \<Rightarrow> Some (Inl e, st2)
              | Inr st2 \<Rightarrow>
                  (case (if valid (frame_table st2 ! f) then
                           BufferMap_remove (buf_map st2) (page_id (frame_table st2 ! f))
                         else Inr (buf_map st2)) of
                     Inl e \<Rightarrow> Some (Inl e, st2)
                   | Inr m \<Rightarrow>
                       (let st3 = st2\<lparr>buf_map := m\<rparr> in
                        case dm_readPage dm pid (disk st3) of
                          (Inl e, d) \<Rightarrow> Some (Inl (readPage_catch pid e), st3\<lparr>disk := d\<rparr>)
                        | (Inr pg, d) \<Rightarrow>
                            (let st4 = st3\<lparr>disk := d, buf_pool := (buf_pool st3)[f := pg],
                                          frame_table := (frame_table st3)
                                            [f := (frame_table st3 ! f)
                                               \<lparr>page_id := pid, valid := True, pin_count := 1,
                                                dirty := False\<rparr>]\<rparr>
                             in case BufferMap_insert (buf_map st4) pid f of
                                  Inl e \<Rightarrow> Some (Inl e, st4)
                                | Inr m' \<Rightarrow>
                                    Some (Inr f,
                                          st4\<lparr>buf_map := m',
                                              replacement_pol :=
                                                policy_pin f (replacement_pol st4)\<rparr>)))))"
    by (simp add: getPage_def contains_iff)
  have n: "(if c then None else buf_map st pid) = None" for c
    by (simp add: miss)
  show ?thesis
    using miss(1) f w rd g' unfolding fr_def ft2_def m3_def ft4_def
    by (cases "valid (frame_table st ! f)"; cases "dirty (frame_table st ! f)"; cases rw;
        cases "buf_map st (page_id (frame_table st ! f))"; cases rd)
       (simp_all add: contains_iff BufferMap_remove_def BufferMap_insert_def Let_def n)
qed

lemma bm_inv_getPage:
  assumes B: "0 < B" and inv: "bm_inv B st"
    and g: "getPage dm B pid st = Some (r, st')"
  shows "bm_inv B st'"
proof -
  from inv have fo: "frames_ok B (buf_map st) (frame_table st)"
    and po: "policy_ok B (replacement_pol st)" by (simp_all add: bm_inv_def)
  show ?thesis
  proof (cases "buf_map st pid")
    case (Some f)
    note e = frames_ok_entry [OF fo Some]
    have "frames_ok B (buf_map st)
            ((frame_table st)[f := (frame_table st ! f)\<lparr>pin_count := pin_count (frame_table st ! f) + 1\<rparr>])"
      by (rule frames_ok_update_valid [OF fo]) (use e fo in \<open>auto dest: frames_ok_entry\<close>)
    with g Some po show ?thesis
      by (auto simp: getPage_def contains_iff BufferMap_get_def bm_inv_def)
  next
    case None
    show ?thesis
    proof (cases "getNumUnpinned B st = 0")
      case True
      with g None inv show ?thesis by (simp add: getPage_def contains_iff)
    next
      case False
      with g None obtain rr pol where
        rep: "policy_replace B (frame_table st) (replacement_pol st) = Some (rr, pol)"
        by (auto simp: getPage_def contains_iff split: option.splits)
      from policy_replace_ok [OF B po rep] have po': "policy_ok B pol"
        and rng: "\<And>f. rr = Inr f \<Longrightarrow> f < B" by simp_all
      show ?thesis
      proof (cases rr)
        case (Inl e)
        with g None False rep fo po' show ?thesis
          by (auto simp: getPage_def contains_iff bm_inv_def)
      next
        case (Inr f)
        note f = rng [OF Inr]
        define fr where "fr = frame_table st ! f"
        have len: "length (frame_table st) = B" by (rule frames_ok_length [OF fo])
        define ft2 where "ft2 = (if valid fr \<and> dirty fr then (frame_table st)[f := fr\<lparr>dirty := False\<rparr>]
                                  else frame_table st)"
        define m3 where "m3 = (if valid fr then (buf_map st)(page_id fr := None) else buf_map st)"
        define ft4 where
          "ft4 = ft2[f := (ft2 ! f)\<lparr>page_id := pid, valid := True, pin_count := 1, dirty := False\<rparr>]"
        have fo2: "frames_ok B (buf_map st) ft2"
        proof (cases "valid fr \<and> dirty fr")
          case True
          have "frames_ok B (buf_map st) ((frame_table st)[f := fr\<lparr>dirty := False\<rparr>])"
            by (rule frames_ok_update_valid [OF fo f])
               (use True fo in \<open>auto simp: fr_def dest: frames_ok_entry\<close>)
          with True show ?thesis by (simp add: ft2_def)
        next
          case False
          with fo show ?thesis by (auto simp: ft2_def)
        qed
        have fr2: "valid (ft2 ! f) = valid fr" "page_id (ft2 ! f) = page_id fr"
          using f len by (auto simp: ft2_def fr_def)
        have len2: "length ft2 = B" using len by (simp add: ft2_def)
        have fo3: "frames_ok B m3 ft2"
          using fo2 by (auto simp: m3_def intro: frames_ok_remove)
        have ne3: "m3 q \<noteq> Some f" for q
        proof (cases "valid fr")
          case True
          from frames_ok_no_entry_removed [OF fo2, of f q] fr2 True show ?thesis
            by (simp add: m3_def del: fun_upd_apply)
        next
          case False
          with frames_ok_no_entry_invalid [OF fo2, of f q] fr2 show ?thesis
            by (simp add: m3_def)
        qed
        have fo4: "frames_ok B m3 ft4"
          unfolding ft4_def by (rule frames_ok_update_valid [OF fo3 f]) (use ne3 in auto)
        have fo5: "frames_ok B (m3(pid \<mapsto> f)) ft4"
          by (rule frames_ok_insert [OF fo4 f]) (use f len2 in \<open>auto simp: ft4_def\<close>)
        have pp: "policy_ok B (policy_pin f pol)" by (rule policy_pin_ok [OF po'])
        from f len have f': "f < length (frame_table st)" by simp
        from getPage_miss_shape [OF None False rep [unfolded Inr] f' g]
        have "(frame_table st', buf_map st', replacement_pol st') \<in>
           {(frame_table st, buf_map st, pol), (ft2, buf_map st, pol), (ft2, m3, pol),
            (ft4, m3, pol), (ft4, m3(pid \<mapsto> f), policy_pin f pol)}"
          unfolding ft4_def ft2_def m3_def fr_def .
        with fo fo2 fo3 fo4 fo5 po' pp show ?thesis
          unfolding bm_inv_def by auto
      qed
    qed
  qed
qed

text \<open>The loop of \<^verbatim>\<open>removeFile\<close> keeps the invariant, whether it ends or raises.\<close>

lemma bm_inv_removeFile_loop:
  "bm_inv B st \<Longrightarrow> removeFile_loop B fid i st = (r, st') \<Longrightarrow> bm_inv B st'"
proof (induction B fid i st rule: removeFile_loop.induct)
  case (1 B fid i st)
  let ?fr = "frame_table st ! i"
  show ?case
  proof (cases "i < B")
    case False
    with "1.prems" show ?thesis by simp
  next
    case True
    from "1.prems"(1) have fo: "frames_ok B (buf_map st) (frame_table st)"
      and po: "policy_ok B (replacement_pol st)" by (simp_all add: bm_inv_def)
    show ?thesis
    proof (cases "valid ?fr \<and> file_id (page_id ?fr) = fid")
      case False
      with True "1.prems"(2) have "removeFile_loop B fid (i + 1) st = (r, st')"
        by (simp add: Let_def)
      from "1.IH"(2) [OF True refl False "1.prems"(1) this] show ?thesis .
    next
      case vf: True
      show ?thesis
      proof (cases "pinned ?fr")
        case True
        with \<open>i < B\<close> vf "1.prems" show ?thesis by (simp add: Let_def)
      next
        case np: False
        show ?thesis
        proof (cases "BufferMap_remove (buf_map st) (page_id ?fr)")
          case (Inl e)
          with \<open>i < B\<close> vf np "1.prems" show ?thesis by (simp add: Let_def)
        next
          case (Inr m)
          then have m: "m = (buf_map st)(page_id ?fr := None)"
            by (simp add: BufferMap_remove_def split: if_splits)
          let ?st1 = "st\<lparr>buf_map := m,
                         frame_table := (frame_table st)
                           [i := ?fr\<lparr>valid := False, dirty := False, pin_count := 0\<rparr>],
                         replacement_pol := policy_freeFrame i (replacement_pol st)\<rparr>"
          from frames_ok_evict [OF fo, of i] policy_freeFrame_ok [OF po \<open>i < B\<close>]
          have inv1: "bm_inv B ?st1" by (simp add: bm_inv_def m)
          from \<open>i < B\<close> vf np Inr "1.prems"(2)
          have "removeFile_loop B fid (i + 1) ?st1 = (r, st')" by (simp add: Let_def)
          from "1.IH"(1) [OF \<open>i < B\<close> refl vf np Inr inv1 this] show ?thesis .
        qed
      qed
    qed
  qed
qed

lemma bm_inv_removeFile:
  assumes "bm_inv B st" "removeFile dm B fid st = (r, st')"
  shows "bm_inv B st'"
proof -
  obtain rl sl where l: "removeFile_loop B fid 0 st = (rl, sl)"
    by (cases "removeFile_loop B fid 0 st")
  from bm_inv_removeFile_loop [OF assms(1) l] have "bm_inv B sl" .
  with assms(2) l show ?thesis
    by (cases rl) (auto simp: removeFile_def bm_inv_disk split: prod.splits)
qed

lemma reachable_bm_inv:
  assumes "reachable dm B st" "0 < B"
  shows "bm_inv B st"
  using assms
proof (induction rule: reachable.induct)
  case (construct d rep_type pool npc rnd st)
  then show ?case by (auto intro: bm_inv_new)
next
  case (allocate st fid ra st')
  then show ?case by (auto intro: bm_inv_allocatePage)
next
  case (get st pid rg st')
  then show ?case by (auto intro: bm_inv_getPage)
next
  case (release st pid dirty_flag r st')
  then show ?case by (auto intro: bm_inv_releasePage)
next
  case (set_dirty st pid r st')
  then show ?case by (auto intro: bm_inv_setDirty)
next
  case (flush st pid r st')
  then show ?case by (auto intro: bm_inv_flushPage)
next
  case (deallocate st pid r st')
  then show ?case by (auto intro: bm_inv_deallocatePage)
next
  case (create_file st fid r st')
  then show ?case by (auto intro: bm_inv_createFile)
next
  case (remove_file st fid r st')
  then show ?case by (auto intro: bm_inv_removeFile)
next
  case (write_slot st pool)
  then show ?case by (auto intro: bm_inv_write_slot)
qed

subsection \<open>Invalid frames\<close>

lemma Some_collapse: "map_option fst x = Some v \<Longrightarrow> x = Some (v, snd (the x))"
  by (cases x) auto

lemma clock_scenario_reachable:
  "reachable simple_disk 1 clock_new1"
  "reachable simple_disk 1 clock_alloc1"
  "reachable simple_disk 1 clock_released1"
  "reachable simple_disk 1 clock_dealloc1"
proof -
  have "BufferManager_new 1 disk0 ClockT [[]] 0 (\<lambda>n. 0) = Inr clock_new1"
    by (simp add: clock_new1_def BufferManager_new_def)
  then show r0: "reachable simple_disk 1 clock_new1" by (rule reachable.construct)
  have "map_option fst (allocatePage simple_disk 1 0 clock_new1) = Some (Inr (0, pgA))"
    unfolding pgA_def clock_new1_def by code_simp
  then have "allocatePage simple_disk 1 0 clock_new1 = Some (Inr (0, pgA), clock_alloc1)"
    unfolding clock_alloc1_def by (rule Some_collapse)
  with r0 show r1: "reachable simple_disk 1 clock_alloc1" by (rule reachable.allocate)
  then have r2: "reachable simple_disk 1 clock_written1"
    unfolding clock_written1_def by (rule reachable.write_slot)
  have "releasePage pgA True clock_written1 =
          (fst (releasePage pgA True clock_written1), clock_released1)"
    by (simp add: clock_released1_def)
  with r2 show r3: "reachable simple_disk 1 clock_released1" by (rule reachable.release)
  have "deallocatePage simple_disk pgA clock_released1 =
          (fst (deallocatePage simple_disk pgA clock_released1), clock_dealloc1)"
    by (simp add: clock_dealloc1_def)
  with r3 show "reachable simple_disk 1 clock_dealloc1" by (rule reachable.deallocate)
qed

text \<open>
  Claim C6 (the code departs from it). Allocate a page, write to it, release it as dirty
  and deallocate it. The comment of \<^verbatim>\<open>deallocatePage\<close> says that the frame is reset, and a
  reset (\<^verbatim>\<open>Frame::resetFrame\<close>) sets \<open>page_id\<close> to \<^verbatim>\<open>INVALID_PAGE_ID\<close>. The method assigns
  \<^verbatim>\<open>valid\<close>, \<^verbatim>\<open>dirty\<close> and \<^verbatim>\<open>pin_count\<close> by hand instead: the frame is invalid afterwards,
  unpinned and clean, but its \<open>page_id\<close> is still the page it held, so it is not the frame
  that \<^verbatim>\<open>resetFrame\<close> gives.
\<close>

theorem invalid_frame_keeps_page_id:
  "reachable simple_disk 1 clock_dealloc1 \<and>
   \<not> valid (frame_table clock_dealloc1 ! 0) \<and>
   pin_count (frame_table clock_dealloc1 ! 0) = 0 \<and>
   \<not> dirty (frame_table clock_dealloc1 ! 0) \<and>
   page_id (frame_table clock_dealloc1 ! 0) = pgA \<and>
   page_id (frame_table clock_dealloc1 ! 0) \<noteq> INVALID_PAGE_ID \<and>
   frame_table clock_dealloc1 ! 0 \<noteq> resetFrame (frame_table clock_dealloc1 ! 0)"
proof -
  have "\<not> valid (frame_table clock_dealloc1 ! 0) \<and>
        pin_count (frame_table clock_dealloc1 ! 0) = 0 \<and>
        \<not> dirty (frame_table clock_dealloc1 ! 0) \<and>
        page_id (frame_table clock_dealloc1 ! 0) = pgA \<and>
        page_id (frame_table clock_dealloc1 ! 0) \<noteq> INVALID_PAGE_ID \<and>
        frame_table clock_dealloc1 ! 0 \<noteq> resetFrame (frame_table clock_dealloc1 ! 0)"
    unfolding pgA_def clock_new1_def clock_alloc1_def clock_written1_def clock_released1_def
      clock_dealloc1_def
    by code_simp
  with clock_scenario_reachable(4) show ?thesis by blast
qed

text \<open>
  The other two parts of the frame invariant do hold. In every state reachable through the
  interface (construction, \<^verbatim>\<open>allocatePage\<close>, \<^verbatim>\<open>getPage\<close>, \<^verbatim>\<open>releasePage\<close>, \<^verbatim>\<open>setDirty\<close>,
  \<^verbatim>\<open>flushPage\<close>, \<^verbatim>\<open>deallocatePage\<close>, \<^verbatim>\<open>createFile\<close>, \<^verbatim>\<open>removeFile\<close>, with any disk manager
  and whether the calls succeed or raise), every frame with \<^verbatim>\<open>valid == false\<close> has
  \<^verbatim>\<open>pin_count == 0\<close> and \<^verbatim>\<open>dirty == false\<close>.
\<close>

lemma invalid_frame_unpinned_clean:
  assumes "reachable dm B st" "0 < B" "i < B" "\<not> valid (frame_table st ! i)"
  shows "pin_count (frame_table st ! i) = 0 \<and> \<not> dirty (frame_table st ! i)"
  using reachable_bm_inv [OF assms(1,2)] assms(3,4)
  by (simp add: bm_inv_def frames_ok_def)

subsection \<open>getPage on a resident page\<close>

lemma getPage_hit:
  assumes "buf_map st pid = Some f"
  shows "getPage dm B pid st =
           Some (Inr f, st\<lparr>frame_table := (frame_table st)
                           [f := (frame_table st ! f)
                              \<lparr>pin_count := pin_count (frame_table st ! f) + 1\<rparr>]\<rparr>)"
  using assms by (simp add: getPage_def contains_iff BufferMap_get_def)

lemma sint_add_of_nat:
  fixes w :: "32 word"
  assumes "sint w + int n < 2 ^ 31"
  shows "sint (w + of_nat n) = sint w + int n"
proof -
  have lo: "- (2 ^ 31) \<le> sint w + int n" using sint_ge [of w] by simp
  have "sint (w + of_nat n) = signed_take_bit 31 (sint w + sint (of_nat n :: 32 word))"
    by (simp add: sint_word_ariths)
  also have "sint (of_nat n :: 32 word) = signed_take_bit 31 (int n)"
    by (simp add: signed_of_nat)
  also have "signed_take_bit 31 (sint w + signed_take_bit 31 (int n)) =
      signed_take_bit 31 (sint w + int n)"
    by (metis signed_take_bit_add signed_take_bit_signed_take_bit min.idem)
  also have "\<dots> = sint w + int n"
    using lo assms by (metis signed_take_bit_int_eq_self)
  finally show ?thesis .
qed

text \<open>
  Claim C8. When \<open>pid\<close> is in the map at frame \<open>f\<close>, any number \<open>n\<close> of \<^verbatim>\<open>getPage(pid)\<close>
  calls in a row all succeed and return the pointer to slot \<open>f\<close>; the map is unchanged, so
  the page stays resident at \<open>f\<close>, and the frame's pin count has gone up by \<open>n\<close>, one per
  call (as a 32-bit value; read signed it goes up by \<open>n\<close> as long as it stays below
  \<open>2^31\<close>). Nothing else changes, and nothing is asked about the number of pinned frames.
\<close>

theorem getPage_resident_same_frame:
  assumes "buf_map st pid = Some f" "f < length (frame_table st)"
  shows "\<exists>st'. getPage_times dm B pid n st = Some (replicate n (Inr f), st') \<and>
           buf_map st' = buf_map st \<and>
           pin_count (frame_table st' ! f) = pin_count (frame_table st ! f) + of_nat n \<and>
           (sint (pin_count (frame_table st ! f)) + int n < 2 ^ 31 \<longrightarrow>
              sint (pin_count (frame_table st' ! f)) = sint (pin_count (frame_table st ! f)) + int n) \<and>
           page_id (frame_table st' ! f) = page_id (frame_table st ! f) \<and>
           valid (frame_table st' ! f) = valid (frame_table st ! f) \<and>
           dirty (frame_table st' ! f) = dirty (frame_table st ! f) \<and>
           length (frame_table st') = length (frame_table st) \<and>
           (\<forall>j. j \<noteq> f \<longrightarrow> frame_table st' ! j = frame_table st ! j) \<and>
           buf_pool st' = buf_pool st \<and> disk st' = disk st \<and>
           replacement_pol st' = replacement_pol st"
proof -
  have main: "\<exists>st'. getPage_times dm B pid n st = Some (replicate n (Inr f), st') \<and>
           buf_map st' = buf_map st \<and>
           pin_count (frame_table st' ! f) = pin_count (frame_table st ! f) + of_nat n \<and>
           page_id (frame_table st' ! f) = page_id (frame_table st ! f) \<and>
           valid (frame_table st' ! f) = valid (frame_table st ! f) \<and>
           dirty (frame_table st' ! f) = dirty (frame_table st ! f) \<and>
           length (frame_table st') = length (frame_table st) \<and>
           (\<forall>j. j \<noteq> f \<longrightarrow> frame_table st' ! j = frame_table st ! j) \<and>
           buf_pool st' = buf_pool st \<and> disk st' = disk st \<and>
           replacement_pol st' = replacement_pol st"
    using assms
  proof (induction n arbitrary: st)
    case 0
    then show ?case by simp
  next
    case (Suc n)
    let ?st1 = "st\<lparr>frame_table := (frame_table st)
                     [f := (frame_table st ! f)\<lparr>pin_count := pin_count (frame_table st ! f) + 1\<rparr>]\<rparr>"
    have g: "getPage dm B pid st = Some (Inr f, ?st1)" by (rule getPage_hit [OF Suc.prems(1)])
    have "buf_map ?st1 pid = Some f" "f < length (frame_table ?st1)"
      using Suc.prems by simp_all
    from Suc.IH [OF this] obtain st' where
      t: "getPage_times dm B pid n ?st1 = Some (replicate n (Inr f), st')"
      and r: "buf_map st' = buf_map ?st1"
        "pin_count (frame_table st' ! f) = pin_count (frame_table ?st1 ! f) + of_nat n"
        "page_id (frame_table st' ! f) = page_id (frame_table ?st1 ! f)"
        "valid (frame_table st' ! f) = valid (frame_table ?st1 ! f)"
        "dirty (frame_table st' ! f) = dirty (frame_table ?st1 ! f)"
        "length (frame_table st') = length (frame_table ?st1)"
        "\<forall>j. j \<noteq> f \<longrightarrow> frame_table st' ! j = frame_table ?st1 ! j"
        "buf_pool st' = buf_pool ?st1" "disk st' = disk ?st1"
        "replacement_pol st' = replacement_pol ?st1"
      by blast
    from g t have "getPage_times dm B pid (Suc n) st = Some (replicate (Suc n) (Inr f), st')"
      by simp
    with r Suc.prems(2) show ?case by (simp add: add.assoc add.commute)
  qed
  then obtain st' where "getPage_times dm B pid n st = Some (replicate n (Inr f), st')" 
    and "pin_count (frame_table st' ! f) = pin_count (frame_table st ! f) + of_nat n" by blast
  with main sint_add_of_nat [of "pin_count (frame_table st ! f)" n] show ?thesis
    by auto
qed

text \<open>Three calls on the page held by the only frame of a pool, which is pinned
  throughout: each returns slot 0 and the pin count goes from 1 to 4.\<close>

theorem getPage_resident_same_frame_witness:
  "buf_map clock_alloc1 pgA = Some 0 \<and> getNumUnpinned 1 clock_alloc1 = 0 \<and>
   pin_count (frame_table clock_alloc1 ! 0) = 1 \<and>
   map_option fst (getPage_times simple_disk 1 pgA 3 clock_alloc1) = Some [Inr 0, Inr 0, Inr 0] \<and>
   pin_count (frame_table (snd (the (getPage_times simple_disk 1 pgA 3 clock_alloc1))) ! 0) = 4 \<and>
   sint (pin_count (frame_table (snd (the (getPage_times simple_disk 1 pgA 3 clock_alloc1))) ! 0)) = 4"
proof -
  have a: "buf_map clock_alloc1 pgA = Some 0" "0 < length (frame_table clock_alloc1)"
    "getNumUnpinned 1 clock_alloc1 = 0" "pin_count (frame_table clock_alloc1 ! 0) = 1"
    unfolding pgA_def clock_new1_def clock_alloc1_def by code_simp+
  from getPage_resident_same_frame [OF a(1,2), of simple_disk 1 3] a
  show ?thesis by (auto simp: numeral_3_eq_3)
qed

subsection \<open>removeFile\<close>

lemma policy_free_freeFrame: "policy_free (policy_freeFrame i pol) = policy_free pol @ [i]"
  by (cases pol) (simp_all add: policy_free_def policy_freeFrame_def Clock_freeFrame_def
      Random_freeFrame_def)

lemma removeFile_loop_pinned:
  assumes "removeFile_loop B fid i st = (Inl (PagePinnedBufMgr pid), st')"
    and "length (frame_table st) = B"
  shows "\<exists>k. i \<le> k \<and> k < B \<and>
           valid (frame_table st ! k) \<and> file_id (page_id (frame_table st ! k)) = fid \<and>
           pinned (frame_table st ! k) \<and> page_id (frame_table st ! k) = pid \<and>
           (\<forall>j. i \<le> j \<and> j < k \<and> valid (frame_table st ! j) \<and>
                file_id (page_id (frame_table st ! j)) = fid \<longrightarrow>
                \<not> pinned (frame_table st ! j) \<and>
                \<not> valid (frame_table st' ! j) \<and> \<not> dirty (frame_table st' ! j) \<and>
                pin_count (frame_table st' ! j) = 0 \<and>
                buf_map st' (page_id (frame_table st ! j)) = None \<and>
                j \<in> set (policy_free (replacement_pol st'))) \<and>
           (\<forall>j. j < i \<or> k \<le> j \<or>
                \<not> (valid (frame_table st ! j) \<and> file_id (page_id (frame_table st ! j)) = fid) \<longrightarrow>
                frame_table st' ! j = frame_table st ! j) \<and>
           length (frame_table st') = B \<and>
           (\<forall>p. buf_map st p = None \<longrightarrow> buf_map st' p = None) \<and>
           set (policy_free (replacement_pol st)) \<subseteq> set (policy_free (replacement_pol st')) \<and>
           disk st' = disk st \<and> buf_pool st' = buf_pool st"
  using assms
proof (induction B fid i st rule: removeFile_loop.induct)
  case (1 B fid i st)
  let ?fr = "frame_table st ! i"
  show ?case
  proof (cases "i < B")
    case False
    with "1.prems" show ?thesis by simp
  next
    case True
    show ?thesis
    proof (cases "valid ?fr \<and> file_id (page_id ?fr) = fid")
      case False
      with True "1.prems"(1) have "removeFile_loop B fid (i + 1) st = (Inl (PagePinnedBufMgr pid), st')"
        by (simp add: Let_def)
      from "1.IH"(2) [OF True refl False this "1.prems"(2)] obtain k where
        k: "i + 1 \<le> k" "k < B" "valid (frame_table st ! k)"
           "file_id (page_id (frame_table st ! k)) = fid"
           "pinned (frame_table st ! k)" "page_id (frame_table st ! k) = pid"
        and dn: "\<forall>j. i + 1 \<le> j \<and> j < k \<and> valid (frame_table st ! j) \<and>
                file_id (page_id (frame_table st ! j)) = fid \<longrightarrow>
                \<not> pinned (frame_table st ! j) \<and>
                \<not> valid (frame_table st' ! j) \<and> \<not> dirty (frame_table st' ! j) \<and>
                pin_count (frame_table st' ! j) = 0 \<and>
                buf_map st' (page_id (frame_table st ! j)) = None \<and>
                j \<in> set (policy_free (replacement_pol st'))"
        and same: "\<forall>j. j < i + 1 \<or> k \<le> j \<or>
                \<not> (valid (frame_table st ! j) \<and> file_id (page_id (frame_table st ! j)) = fid) \<longrightarrow>
                frame_table st' ! j = frame_table st ! j"
        and rest: "length (frame_table st') = B"
           "\<forall>p. buf_map st p = None \<longrightarrow> buf_map st' p = None"
           "set (policy_free (replacement_pol st)) \<subseteq> set (policy_free (replacement_pol st'))"
           "disk st' = disk st" "buf_pool st' = buf_pool st"
        by blast
      have d': "\<forall>j. i \<le> j \<and> j < k \<and> valid (frame_table st ! j) \<and>
                file_id (page_id (frame_table st ! j)) = fid \<longrightarrow>
                \<not> pinned (frame_table st ! j) \<and>
                \<not> valid (frame_table st' ! j) \<and> \<not> dirty (frame_table st' ! j) \<and>
                pin_count (frame_table st' ! j) = 0 \<and>
                buf_map st' (page_id (frame_table st ! j)) = None \<and>
                j \<in> set (policy_free (replacement_pol st'))"
      proof (intro allI impI)
        fix j
        assume j: "i \<le> j \<and> j < k \<and> valid (frame_table st ! j) \<and>
                file_id (page_id (frame_table st ! j)) = fid"
        with False have "j \<noteq> i" by auto
        with j have "i + 1 \<le> j" by simp
        with j dn show "\<not> pinned (frame_table st ! j) \<and>
                \<not> valid (frame_table st' ! j) \<and> \<not> dirty (frame_table st' ! j) \<and>
                pin_count (frame_table st' ! j) = 0 \<and>
                buf_map st' (page_id (frame_table st ! j)) = None \<and>
                j \<in> set (policy_free (replacement_pol st'))" by blast
      qed
      have s': "\<forall>j. j < i \<or> k \<le> j \<or>
                \<not> (valid (frame_table st ! j) \<and> file_id (page_id (frame_table st ! j)) = fid) \<longrightarrow>
                frame_table st' ! j = frame_table st ! j"
        using same by auto
      from k have "i \<le> k" by simp
      with k d' s' rest show ?thesis by blast
    next
      case vf: True
      show ?thesis
      proof (cases "pinned ?fr")
        case True
        with \<open>i < B\<close> vf "1.prems" have "st' = st" "pid = page_id ?fr" by (auto simp: Let_def)
        with \<open>i < B\<close> vf True "1.prems"(2) show ?thesis
          by (intro exI [of _ i]) auto
      next
        case np: False
        show ?thesis
        proof (cases "BufferMap_remove (buf_map st) (page_id ?fr)")
          case (Inl e)
          then have "e = PageNotFoundBufMgr (page_id ?fr)"
            by (simp add: BufferMap_remove_def split: if_splits)
          with Inl \<open>i < B\<close> vf np "1.prems" show ?thesis by (simp add: Let_def)
        next
          case (Inr m)
          then have m: "m = (buf_map st)(page_id ?fr := None)"
            by (simp add: BufferMap_remove_def split: if_splits)
          let ?st1 = "st\<lparr>buf_map := m,
                         frame_table := (frame_table st)
                           [i := ?fr\<lparr>valid := False, dirty := False, pin_count := 0\<rparr>],
                         replacement_pol := policy_freeFrame i (replacement_pol st)\<rparr>"
          from \<open>i < B\<close> vf np Inr "1.prems"(1)
          have l: "removeFile_loop B fid (i + 1) ?st1 = (Inl (PagePinnedBufMgr pid), st')"
            by (simp add: Let_def)
          have len1: "length (frame_table ?st1) = B" using "1.prems"(2) by simp
          have ft1: "j \<noteq> i \<Longrightarrow> frame_table ?st1 ! j = frame_table st ! j" for j by simp
          have fi: "\<not> valid (frame_table ?st1 ! i)" "\<not> dirty (frame_table ?st1 ! i)"
            "pin_count (frame_table ?st1 ! i) = 0"
            using \<open>i < B\<close> "1.prems"(2) by simp_all
          from "1.IH"(1) [OF \<open>i < B\<close> refl vf np Inr l len1] obtain k where
            k: "i + 1 \<le> k" "k < B" "valid (frame_table ?st1 ! k)"
               "file_id (page_id (frame_table ?st1 ! k)) = fid"
               "pinned (frame_table ?st1 ! k)" "page_id (frame_table ?st1 ! k) = pid"
            and dn: "\<forall>j. i + 1 \<le> j \<and> j < k \<and> valid (frame_table ?st1 ! j) \<and>
                file_id (page_id (frame_table ?st1 ! j)) = fid \<longrightarrow>
                \<not> pinned (frame_table ?st1 ! j) \<and>
                \<not> valid (frame_table st' ! j) \<and> \<not> dirty (frame_table st' ! j) \<and>
                pin_count (frame_table st' ! j) = 0 \<and>
                buf_map st' (page_id (frame_table ?st1 ! j)) = None \<and>
                j \<in> set (policy_free (replacement_pol st'))"
            and same: "\<forall>j. j < i + 1 \<or> k \<le> j \<or>
                \<not> (valid (frame_table ?st1 ! j) \<and> file_id (page_id (frame_table ?st1 ! j)) = fid) \<longrightarrow>
                frame_table st' ! j = frame_table ?st1 ! j"
            and rest: "length (frame_table st') = B"
               "\<forall>p. buf_map ?st1 p = None \<longrightarrow> buf_map st' p = None"
               "set (policy_free (replacement_pol ?st1)) \<subseteq> set (policy_free (replacement_pol st'))"
               "disk st' = disk ?st1" "buf_pool st' = buf_pool ?st1"
            by blast
          from k(1) have ki: "k \<noteq> i" "i \<le> k" by simp_all
          have kk: "valid (frame_table st ! k)" "file_id (page_id (frame_table st ! k)) = fid"
            "pinned (frame_table st ! k)" "page_id (frame_table st ! k) = pid"
            using k ft1 [OF ki(1)] by simp_all
          have at_i: "frame_table st' ! i = frame_table ?st1 ! i" using same by simp
          have free_i: "i \<in> set (policy_free (replacement_pol st'))"
            using rest(3) by (simp add: policy_free_freeFrame)
          have map_i: "buf_map st' (page_id ?fr) = None"
            using rest(2) by (simp add: m)
          have d': "\<forall>j. i \<le> j \<and> j < k \<and> valid (frame_table st ! j) \<and>
                file_id (page_id (frame_table st ! j)) = fid \<longrightarrow>
                \<not> pinned (frame_table st ! j) \<and>
                \<not> valid (frame_table st' ! j) \<and> \<not> dirty (frame_table st' ! j) \<and>
                pin_count (frame_table st' ! j) = 0 \<and>
                buf_map st' (page_id (frame_table st ! j)) = None \<and>
                j \<in> set (policy_free (replacement_pol st'))"
          proof (intro allI impI)
            fix j
            assume j: "i \<le> j \<and> j < k \<and> valid (frame_table st ! j) \<and>
                file_id (page_id (frame_table st ! j)) = fid"
            show "\<not> pinned (frame_table st ! j) \<and>
                \<not> valid (frame_table st' ! j) \<and> \<not> dirty (frame_table st' ! j) \<and>
                pin_count (frame_table st' ! j) = 0 \<and>
                buf_map st' (page_id (frame_table st ! j)) = None \<and>
                j \<in> set (policy_free (replacement_pol st'))"
            proof (cases "j = i")
              case True
              with np fi at_i free_i map_i show ?thesis by simp
            next
              case False
              with j have "i + 1 \<le> j" by simp
              with j dn ft1 [OF False] show ?thesis by simp
            qed
          qed
          have s': "\<forall>j. j < i \<or> k \<le> j \<or>
                \<not> (valid (frame_table st ! j) \<and> file_id (page_id (frame_table st ! j)) = fid) \<longrightarrow>
                frame_table st' ! j = frame_table st ! j"
          proof (intro allI impI)
            fix j
            assume j: "j < i \<or> k \<le> j \<or>
                \<not> (valid (frame_table st ! j) \<and> file_id (page_id (frame_table st ! j)) = fid)"
            with vf have ne: "j \<noteq> i" using ki by auto
            with j have "j < i + 1 \<or> k \<le> j \<or>
                \<not> (valid (frame_table ?st1 ! j) \<and> file_id (page_id (frame_table ?st1 ! j)) = fid)"
              using ft1 [OF ne] by auto
            with same have "frame_table st' ! j = frame_table ?st1 ! j" by blast
            with ft1 [OF ne] show "frame_table st' ! j = frame_table st ! j" by simp
          qed
          have r': "\<forall>p. buf_map st p = None \<longrightarrow> buf_map st' p = None"
            using rest(2) by (simp add: m)
          have f': "set (policy_free (replacement_pol st)) \<subseteq> set (policy_free (replacement_pol st'))"
            using rest(3) by (simp add: policy_free_freeFrame)
          from rest(4,5) have dd: "disk st' = disk st" "buf_pool st' = buf_pool st" by simp_all
          from ki(2) k(2) kk d' s' rest(1) r' f' dd show ?thesis by blast
        qed
      qed
    qed
  qed
qed

text \<open>
  What a scan of \<^verbatim>\<open>removeFile(fid)\<close> that raises \<^verbatim>\<open>PagePinnedBufMgr(pid)\<close> has done. It
  raises at a frame \<open>k\<close> that is valid, holds the page \<open>pid\<close> of file \<open>fid\<close> and is pinned,
  and no valid frame of the file below \<open>k\<close> is pinned. Every valid frame of the file at a
  smaller index has \<^verbatim>\<open>valid\<close> and \<^verbatim>\<open>dirty\<close> false and \<^verbatim>\<open>pin_count\<close> 0, its page is out of
  the map and its index is on the policy's free list; the frames from \<open>k\<close> on are
  untouched. \<^verbatim>\<open>removeFile\<close> raises the same exception whatever the disk manager is, and the
  disk is as before: \<^verbatim>\<open>disk_mgr->removeFile\<close> was not called. The call is not atomic.
\<close>

lemma removeFile_pinned_not_atomic:
  assumes "removeFile_loop B fid 0 st = (Inl (PagePinnedBufMgr pid), st')"
    and "length (frame_table st) = B"
  shows "removeFile dm B fid st = (Inl (PagePinnedBufMgr pid), st') \<and>
         disk st' = disk st \<and>
         (\<exists>k<B. valid (frame_table st ! k) \<and> file_id (page_id (frame_table st ! k)) = fid \<and>
            pinned (frame_table st ! k) \<and> page_id (frame_table st ! k) = pid \<and>
            (\<forall>j<k. valid (frame_table st ! j) \<and> file_id (page_id (frame_table st ! j)) = fid \<longrightarrow>
               \<not> pinned (frame_table st ! j) \<and>
               \<not> valid (frame_table st' ! j) \<and> \<not> dirty (frame_table st' ! j) \<and>
               pin_count (frame_table st' ! j) = 0 \<and>
               buf_map st' (page_id (frame_table st ! j)) = None \<and>
               j \<in> set (policy_free (replacement_pol st'))) \<and>
            (\<forall>j\<ge>k. frame_table st' ! j = frame_table st ! j))"
proof -
  from removeFile_loop_pinned [OF assms] obtain k where
    k: "k < B" "valid (frame_table st ! k)" "file_id (page_id (frame_table st ! k)) = fid"
       "pinned (frame_table st ! k)" "page_id (frame_table st ! k) = pid"
    and dn: "\<forall>j. 0 \<le> j \<and> j < k \<and> valid (frame_table st ! j) \<and>
                file_id (page_id (frame_table st ! j)) = fid \<longrightarrow>
                \<not> pinned (frame_table st ! j) \<and>
                \<not> valid (frame_table st' ! j) \<and> \<not> dirty (frame_table st' ! j) \<and>
                pin_count (frame_table st' ! j) = 0 \<and>
                buf_map st' (page_id (frame_table st ! j)) = None \<and>
                j \<in> set (policy_free (replacement_pol st'))"
    and same: "\<forall>j. j < 0 \<or> k \<le> j \<or>
                \<not> (valid (frame_table st ! j) \<and> file_id (page_id (frame_table st ! j)) = fid) \<longrightarrow>
                frame_table st' ! j = frame_table st ! j"
    and d: "disk st' = disk st"
    by blast
  have "removeFile dm B fid st = (Inl (PagePinnedBufMgr pid), st')"
    using assms(1) by (simp add: removeFile_def del: removeFile_loop.simps)
  moreover from dn have "\<forall>j<k. valid (frame_table st ! j) \<and> file_id (page_id (frame_table st ! j)) = fid \<longrightarrow>
               \<not> pinned (frame_table st ! j) \<and>
               \<not> valid (frame_table st' ! j) \<and> \<not> dirty (frame_table st' ! j) \<and>
               pin_count (frame_table st' ! j) = 0 \<and>
               buf_map st' (page_id (frame_table st ! j)) = None \<and>
               j \<in> set (policy_free (replacement_pol st'))" by simp
  moreover from same have "\<forall>j\<ge>k. frame_table st' ! j = frame_table st ! j" by simp
  ultimately show ?thesis using k d by blast
qed

text \<open>
  Claim C10 (the code departs from it). Two frames hold pages of file 0, frame 0 unpinned
  and frame 1 pinned. \<^verbatim>\<open>removeFile(0)\<close> raises \<^verbatim>\<open>PagePinnedBufMgr\<close> for frame 1 after it has
  taken frame 0 out of the map, cleared its \<^verbatim>\<open>valid\<close>, \<^verbatim>\<open>dirty\<close> and \<^verbatim>\<open>pin_count\<close> and put it
  on the free list, with the disk untouched: so far as the claim has it. But frame 0 has
  not been reset: its \<open>page_id\<close> is still \<open>pgA\<close>, not \<^verbatim>\<open>INVALID_PAGE_ID\<close>, and the frame is
  not the one \<^verbatim>\<open>Frame::resetFrame\<close> gives, though the comment of \<^verbatim>\<open>removeFile\<close> says the
  frames are reset.
\<close>

theorem removeFile_partial_keeps_page_id:
  "length (frame_table random_one_free2) = 2 \<and>
   buf_map random_one_free2 pgA = Some 0 \<and>
   valid (frame_table random_one_free2 ! 0) \<and>
   page_id (frame_table random_one_free2 ! 0) = pgA \<and>
   policy_free (replacement_pol random_one_free2) = [] \<and>
   fst (removeFile simple_disk 2 0 random_one_free2) = Inl (PagePinnedBufMgr pgB) \<and>
   \<not> valid (frame_table (snd (removeFile simple_disk 2 0 random_one_free2)) ! 0) \<and>
   \<not> dirty (frame_table (snd (removeFile simple_disk 2 0 random_one_free2)) ! 0) \<and>
   pin_count (frame_table (snd (removeFile simple_disk 2 0 random_one_free2)) ! 0) = 0 \<and>
   buf_map (snd (removeFile simple_disk 2 0 random_one_free2)) pgA = None \<and>
   0 \<in> set (policy_free (replacement_pol (snd (removeFile simple_disk 2 0 random_one_free2)))) \<and>
   disk (snd (removeFile simple_disk 2 0 random_one_free2)) = disk random_one_free2 \<and>
   page_id (frame_table (snd (removeFile simple_disk 2 0 random_one_free2)) ! 0) = pgA \<and>
   page_id (frame_table (snd (removeFile simple_disk 2 0 random_one_free2)) ! 0)
     \<noteq> INVALID_PAGE_ID \<and>
   frame_table (snd (removeFile simple_disk 2 0 random_one_free2)) ! 0 \<noteq>
     resetFrame (frame_table (snd (removeFile simple_disk 2 0 random_one_free2)) ! 0)"
proof -
  define st' where "st' = snd (removeFile_loop 2 0 0 random_one_free2)"
  have a: "fst (removeFile_loop 2 0 0 random_one_free2) = Inl (PagePinnedBufMgr pgB)"
    "length (frame_table random_one_free2) = 2"
    "buf_map random_one_free2 pgA = Some 0"
    "policy_free (replacement_pol random_one_free2) = []"
    unfolding pgA_def pgB_def random_new2_def random_full2_def random_one_free2_def
    by code_simp+
  have b: "valid (frame_table random_one_free2 ! 0)"
    "file_id (page_id (frame_table random_one_free2 ! 0)) = 0"
    "page_id (frame_table random_one_free2 ! 0) = pgA"
    "\<not> pinned (frame_table random_one_free2 ! 0)"
    unfolding pgA_def pgB_def random_new2_def random_full2_def random_one_free2_def
    by code_simp+
  have c: "page_id (frame_table st' ! 0) = pgA"
    "page_id (frame_table st' ! 0) \<noteq> INVALID_PAGE_ID"
    "frame_table st' ! 0 \<noteq> resetFrame (frame_table st' ! 0)"
    unfolding st'_def pgA_def pgB_def random_new2_def random_full2_def random_one_free2_def
    by code_simp+
  from a(1) have l: "removeFile_loop 2 0 0 random_one_free2 = (Inl (PagePinnedBufMgr pgB), st')"
    unfolding st'_def by (metis prod.collapse)
  note t = removeFile_pinned_not_atomic [OF l a(2), of simple_disk]
  from t have r: "removeFile simple_disk 2 0 random_one_free2 = (Inl (PagePinnedBufMgr pgB), st')"
    and d: "disk st' = disk random_one_free2" by simp_all
  from t obtain k where k: "k < 2" "pinned (frame_table random_one_free2 ! k)"
    and dn: "\<forall>j<k. valid (frame_table random_one_free2 ! j) \<and>
               file_id (page_id (frame_table random_one_free2 ! j)) = 0 \<longrightarrow>
               \<not> valid (frame_table st' ! j) \<and> \<not> dirty (frame_table st' ! j) \<and>
               pin_count (frame_table st' ! j) = 0 \<and>
               buf_map st' (page_id (frame_table random_one_free2 ! j)) = None \<and>
               j \<in> set (policy_free (replacement_pol st'))"
    by blast
  from k b(4) have "k = 1" by (cases "k = 0") auto
  with dn b have "\<not> valid (frame_table st' ! 0) \<and> \<not> dirty (frame_table st' ! 0) \<and>
      pin_count (frame_table st' ! 0) = 0 \<and> buf_map st' pgA = None \<and>
      0 \<in> set (policy_free (replacement_pol st'))" by auto
  with a b c r d show ?thesis by simp
qed

end
